theory Spec2Isabelle
  imports Complex_Main "HOL-Library.Log_Nat"
begin

section \<open>Data model\<close>

text \<open>
  The embedding follows \<^verbatim>\<open>src/routes/auth.js\<close>, the start-up code of \<^verbatim>\<open>server.js\<close> and
  \<^verbatim>\<open>config/validateEnv.js\<close>. Strings are \<open>string\<close>, a request field that may be
  \<^verbatim>\<open>undefined\<close> and a column that may be \<^verbatim>\<open>NULL\<close> are \<open>option\<close>s, instants are
  milliseconds since the epoch (\<open>int\<close>), and a row id (a UUID drawn by the store) is a
  \<open>nat\<close> drawn from a counter of the store. Numbers are IEEE doubles, their values
  being real numbers and every operation rounding to the nearest double.
\<close>

text \<open>A row of table \<^verbatim>\<open>users\<close>, with the columns the routes read or write.\<close>

record user =
  user_id :: nat
  mobile :: string
  email :: "string option"
  password_hash :: "string option"
  role :: string
  is_active :: bool
  is_verified :: bool
  otp :: "string option"
  otp_expires_at :: "int option"

datatype log_status = St_success | St_warning | St_error

text \<open>A row of table \<^verbatim>\<open>auth_logs\<close>, in the column order of the INSERT of \<^verbatim>\<open>logEvent\<close>.\<close>

record auth_log =
  log_user_id :: "nat option"
  log_mobile :: "string option"
  log_user_role :: string
  log_step :: string
  log_status :: log_status
  log_message :: string
  log_error_stack :: "string option"
  log_ip_address :: "string option"
  log_device_info :: "string option"

text \<open>
  A JSON value other than \<^verbatim>\<open>null\<close>, as far as the routes observe it. A number is
  represented by its text \<^verbatim>\<open>String(n)\<close>, which is also what the database driver sends for
  it; an array by its length, its text \<^verbatim>\<open>String(a)\<close> and the array literal the driver
  sends; an object by whether its \<^verbatim>\<open>length\<close> property compares \<^verbatim>\<open>< 10\<close> and by its
  JSON text, which the driver sends.
\<close>

datatype jvalue =
    JString string
  | JNumber string
  | JBool bool
  | JArray nat string string
  | JObject bool string

text \<open>
  The request: the fields of \<^verbatim>\<open>req.body\<close> and the metadata \<^verbatim>\<open>getClientInfo\<close> reads.
  The mobile is any JSON value, \<open>None\<close> when it is absent or \<^verbatim>\<open>null\<close> (the routes do not
  tell the two apart); the other fields are strings when they are present.
\<close>

record request =
  body_mobile :: "jvalue option"
  body_role :: "string option"
  body_otp :: "string option"
  body_email :: "string option"
  body_password :: "string option"
  x_forwarded_for :: "string option"
  remoteAddress :: "string option"
  user_agent :: "string option"

text \<open>
  The operational log (stdout and stderr), one constructor for each call of
  \<^verbatim>\<open>console.log\<close> or \<^verbatim>\<open>console.error\<close> in the routes:
  the dump of the request body, the line of \<^verbatim>\<open>logEvent\<close> (timestamp, status, role,
  mobile, ip, step, message), the line that prints the one-time code, and the error line of
  \<^verbatim>\<open>logEvent\<close>.
\<close>

datatype console_line =
    Body_line request
  | Event_line int log_status string string string string string
  | Otp_line string string
  | Error_line string

text \<open>
  A session token as \<^verbatim>\<open>jwt.sign(payload, key, {expiresIn: "30d"})\<close> makes it: the
  payload, the key it was signed with, and the issue and expiry instants in seconds.
\<close>

record token =
  tok_userId :: nat
  tok_mobile :: string
  tok_role :: string
  tok_key :: string
  tok_iat :: int
  tok_exp :: int

text \<open>The JSON bodies the three routes send, and what a handler leaves behind.\<close>

datatype json =
    Json_error string
  | Json_otp_sent "string option"
  | Json_verified token nat string string bool "string option"
  | Json_registered token nat string "string option" string

datatype outcome =
    Sent nat json
  | Unhandled string

text \<open>
  The tables the SQL statements of the routes act on, with the id generator of table
  \<^verbatim>\<open>users\<close>. A profile table is represented by the \<^verbatim>\<open>user_id\<close> column of its rows.
\<close>

record store =
  users :: "user list"
  candidate_profiles :: "nat list"
  employer_profiles :: "nat list"
  next_id :: nat

text \<open>
  The state the routes act on: the store, table \<^verbatim>\<open>auth_logs\<close>, the operational log,
  the process environment, the clock, and the outcomes of the coming store
  operations. Each \<^verbatim>\<open>pool.connect()\<close> and each \<^verbatim>\<open>client.query()\<close> consumes the head
  of \<open>faults\<close>: \<open>None\<close> lets it go through, \<open>Some e\<close> makes it reject with message
  \<open>e\<close> (an unreachable store, an exhausted pool, a statement the schema refuses); once the
  list is used up every operation goes through.
\<close>

record world =
  db :: store
  auth_logs :: "auth_log list"
  console :: "console_line list"
  faults :: "string option list"
  env :: "(string \<times> string) list"
  clock :: int

type_synonym 'a io = "world \<Rightarrow> (string + 'a) \<times> world"

section \<open>Helpers\<close>

text \<open>JavaScript truthiness of a value that is a string or \<^verbatim>\<open>undefined\<close>/\<^verbatim>\<open>null\<close>.\<close>

definition truthy :: "string option \<Rightarrow> bool" where
  "truthy s = (case s of None \<Rightarrow> False | Some v \<Rightarrow> v \<noteq> [])"

text \<open>\<^verbatim>\<open>a || d\<close> for such a value and a string default.\<close>

definition or_else :: "string option \<Rightarrow> string \<Rightarrow> string" where
  "or_else s d = (case s of None \<Rightarrow> d | Some v \<Rightarrow> if v \<noteq> [] then v else d)"

text \<open>A default parameter (\<^verbatim>\<open>role = "candidate"\<close>): it applies to \<^verbatim>\<open>undefined\<close> only.\<close>

definition defaulted :: "string option \<Rightarrow> string \<Rightarrow> string" where
  "defaulted s d = (case s of None \<Rightarrow> d | Some v \<Rightarrow> v)"

text \<open>Truthiness of a JSON value: the empty string, zero and \<^verbatim>\<open>false\<close> are falsy.\<close>

definition js_truthy :: "jvalue \<Rightarrow> bool" where
  "js_truthy v =
     (case v of JString s \<Rightarrow> s \<noteq> [] | JNumber s \<Rightarrow> s \<noteq> ''0'' | JBool b \<Rightarrow> b
      | JArray _ _ _ \<Rightarrow> True | JObject _ _ \<Rightarrow> True)"

text \<open>
  \<^verbatim>\<open>v.length < 10\<close>: a number and a boolean have no \<^verbatim>\<open>length\<close>, and
  \<^verbatim>\<open>undefined < 10\<close> is false.
\<close>

definition js_length_lt_10 :: "jvalue \<Rightarrow> bool" where
  "js_length_lt_10 v =
     (case v of JString s \<Rightarrow> length s < 10 | JNumber _ \<Rightarrow> False | JBool _ \<Rightarrow> False
      | JArray n _ _ \<Rightarrow> n < 10 | JObject b _ \<Rightarrow> b)"

text \<open>\<^verbatim>\<open>String(v)\<close>, as a template literal renders the value.\<close>

definition js_String :: "jvalue \<Rightarrow> string" where
  "js_String v =
     (case v of JString s \<Rightarrow> s | JNumber s \<Rightarrow> s
      | JBool b \<Rightarrow> (if b then ''true'' else ''false'')
      | JArray _ s _ \<Rightarrow> s | JObject _ _ \<Rightarrow> ''[object Object]'')"

text \<open>The text the database driver sends for the value as a statement parameter.\<close>

definition pg_text :: "jvalue \<Rightarrow> string" where
  "pg_text v =
     (case v of JString s \<Rightarrow> s | JNumber s \<Rightarrow> s
      | JBool b \<Rightarrow> (if b then ''true'' else ''false'')
      | JArray _ _ s \<Rightarrow> s | JObject _ s \<Rightarrow> s)"

text \<open>\<^verbatim>\<open>${mobile || d}\<close> for a field that may be absent.\<close>

definition js_or :: "jvalue option \<Rightarrow> string \<Rightarrow> string" where
  "js_or f d = (case f of None \<Rightarrow> d | Some v \<Rightarrow> if js_truthy v then js_String v else d)"

definition getenv :: "(string \<times> string) list \<Rightarrow> string \<Rightarrow> string option" where
  "getenv e k = map_of e k"

subsection \<open>Computations\<close>

text \<open>
  A computation runs on the state and either returns a value or throws an error message
  (\<open>Inl\<close>); \<open>bind_io\<close> is sequencing (\<^verbatim>\<open>await\<close>), \<open>catch_io\<close> is
  \<^verbatim>\<open>try { ... } catch (err) { ... }\<close>.
\<close>

definition return_io :: "'a \<Rightarrow> 'a io" where
  "return_io x w = (Inr x, w)"

definition throw_io :: "string \<Rightarrow> 'a io" where
  "throw_io e w = (Inl e, w)"

definition bind_io :: "'a io \<Rightarrow> ('a \<Rightarrow> 'b io) \<Rightarrow> 'b io" where
  "bind_io m f w = (case m w of (Inl e, w') \<Rightarrow> (Inl e, w') | (Inr x, w') \<Rightarrow> f x w')"

definition catch_io :: "'a io \<Rightarrow> (string \<Rightarrow> 'a io) \<Rightarrow> 'a io" where
  "catch_io m h w = (case m w of (Inl e, w') \<Rightarrow> h e w' | (Inr x, w') \<Rightarrow> (Inr x, w'))"

text \<open>
  One store operation, \<^verbatim>\<open>pool.connect()\<close> or the round trip of \<^verbatim>\<open>client.query()\<close>:
  it consumes the next entry of \<open>faults\<close>.
\<close>

definition store_op :: "unit io" where
  "store_op w =
     (case faults w of
        [] \<Rightarrow> (Inr (), w)
      | None # fs \<Rightarrow> (Inr (), w\<lparr>faults := fs\<rparr>)
      | Some e # fs \<Rightarrow> (Inl e, w\<lparr>faults := fs\<rparr>))"

text \<open>
  \<^verbatim>\<open>client.query(sql, params)\<close>: the round trip, then the effect \<open>q\<close> of the statement on
  the store and its result rows. A rejected statement has no effect.
\<close>

definition client_query :: "(store \<Rightarrow> 'a \<times> store) \<Rightarrow> 'a io" where
  "client_query q =
     bind_io store_op (\<lambda>_ w. (Inr (fst (q (db w))), w\<lparr>db := snd (q (db w))\<rparr>))"

text \<open>\<^verbatim>\<open>console.log\<close> and \<^verbatim>\<open>console.error\<close>, \<^verbatim>\<open>Date.now()\<close>, \<^verbatim>\<open>process.env.NODE_ENV\<close>.\<close>

definition console_log :: "console_line \<Rightarrow> unit io" where
  "console_log l w = (Inr (), w\<lparr>console := console w @ [l]\<rparr>)"

definition Date_now :: "int io" where
  "Date_now w = (Inr (clock w), w)"

definition NODE_ENV :: "string option io" where
  "NODE_ENV w = (Inr (getenv (env w) ''NODE_ENV''), w)"

subsection \<open>generateOTP\<close>

text \<open>The character of a decimal digit \<open>d < 10\<close>.\<close>

definition digit_char :: "nat \<Rightarrow> char" where
  "digit_char d = ''0123456789'' ! d"

text \<open>\<^verbatim>\<open>Number.prototype.toString()\<close> on an integer: its decimal digits, no padding.\<close>

function toString_nat :: "nat \<Rightarrow> string" where
  "toString_nat n =
     (if n < 10 then [digit_char n] else toString_nat (n div 10) @ [digit_char (n mod 10)])"
  by pat_completeness auto
termination
  by (relation "measure (\<lambda>n. n)") auto

declare toString_nat.simps [simp del]

definition toString :: "int \<Rightarrow> string" where
  "toString i = (if i < 0 then CHR ''-'' # toString_nat (nat (- i)) else toString_nat (nat i))"

text \<open>
  The arithmetic of the code is that of IEEE-754 doubles: the result of an operation is
  the exact result rounded to the nearest double, a tie going to the even significand.
  \<open>round_half_even\<close> rounds a real to the nearest integer in that way.
\<close>

definition round_half_even :: "real \<Rightarrow> int" where
  "round_half_even y =
     (let f = \<lfloor>y\<rfloor>; d = y - of_int f
      in if d < 1 / 2 then f else if 1 / 2 < d then f + 1 else if even f then f else f + 1)"

text \<open>The binary exponent of a positive real \<open>x\<close>: the \<open>e\<close> with \<open>2\<^sup>e \<le> x < 2\<^sup>e\<^sup>+\<^sup>1\<close>.\<close>

definition exponent :: "real \<Rightarrow> int" where
  "exponent x = (if 1 \<le> x then bitlen \<lfloor>x\<rfloor> - 1 else - bitlen (\<lceil>1 / x\<rceil> - 1))"

text \<open>
  The double nearest to \<open>x\<close>: a significand of 53 bits, so the doubles around \<open>x\<close> are the
  multiples of \<open>2\<^sup>e\<^sup>-\<^sup>5\<^sup>2\<close>, with the exponent \<open>e\<close> at least \<open>-1022\<close> (below, the doubles are
  subnormal). Overflow to infinity is left out: the numbers of this program stay below
  \<open>2\<^sup>2\<^sup>0\<close>.
\<close>

definition double :: "real \<Rightarrow> real" where
  "double x =
     (if x = 0 then 0
      else let e = max (exponent \<bar>x\<bar>) (- 1022); u = 2 powi (e - 52)
           in sgn x * of_int (round_half_even (\<bar>x\<bar> / u)) * u)"

text \<open>
  \<^verbatim>\<open>Math.floor(100000 + Math.random() * 900000).toString()\<close>, with the value \<open>r\<close> of
  \<^verbatim>\<open>Math.random()\<close> as argument: a double in \<open>[0, 1)\<close>. The product is rounded, then the
  sum; \<^verbatim>\<open>Math.floor\<close> is exact.
\<close>

definition otp_number :: "real \<Rightarrow> int" where
  "otp_number r = \<lfloor>double (100000 + double (r * 900000))\<rfloor>"

definition generateOTP :: "real \<Rightarrow> string" where
  "generateOTP r = toString (otp_number r)"

subsection \<open>getClientInfo\<close>

definition getClientInfo :: "request \<Rightarrow> string \<times> string" where
  "getClientInfo req =
     (or_else (x_forwarded_for req) (or_else (remoteAddress req) ''unknown''),
      or_else (user_agent req) ''unknown-device'')"

subsection \<open>logEvent\<close>

text \<open>
  The arguments are those of the destructured parameter, in its order: mobile, userId,
  role (default \<^verbatim>\<open>"unknown"\<close>), step, status, message, errorStack, ip, device. The
  connection is acquired before the \<^verbatim>\<open>try\<close>, so a rejected \<^verbatim>\<open>pool.connect()\<close>
  leaves the function as an exception; a rejected INSERT is caught and reported with
  \<^verbatim>\<open>console.error\<close>.
\<close>

text \<open>\<^verbatim>\<open>INSERT INTO auth_logs (...) VALUES ($1, ..., $9)\<close>\<close>

definition sql_insert_auth_log :: "auth_log \<Rightarrow> unit io" where
  "sql_insert_auth_log entry =
     bind_io store_op (\<lambda>_ w. (Inr (), w\<lparr>auth_logs := auth_logs w @ [entry]\<rparr>))"

definition logEvent ::
  "jvalue option \<Rightarrow> nat option \<Rightarrow> string option \<Rightarrow> string \<Rightarrow> log_status \<Rightarrow> string \<Rightarrow>
   string option \<Rightarrow> string option \<Rightarrow> string option \<Rightarrow> unit io" where
  "logEvent mob userId rl step status message errorStack ip device =
     bind_io Date_now (\<lambda>timestamp.
     bind_io (console_log
                (Event_line timestamp status (defaulted rl ''unknown'') (js_or mob ''N/A'')
                   (or_else ip ''no-ip'') step message)) (\<lambda>_.
     bind_io store_op (\<lambda>_.
     catch_io
       (sql_insert_auth_log
          \<lparr>log_user_id = userId, log_mobile = map_option pg_text mob, log_user_role = defaulted rl ''unknown'',
           log_step = step, log_status = status, log_message = message,
           log_error_stack = errorStack, log_ip_address = ip, log_device_info = device\<rparr>)
       (\<lambda>err. console_log (Error_line (''Failed to insert auth log: '' @ err))))))"

subsection \<open>runQuery\<close>

text \<open>
  \<open>runQuery q (mobile, role, step, ip, device)\<close>, for the statement \<open>q\<close>. The connection
  is acquired before the \<^verbatim>\<open>try\<close>; the \<^verbatim>\<open>catch\<close> block covers the statement and the
  success entry alike, writes an error entry and throws the error again. The stack trace of
  an error is represented by its message.
\<close>

type_synonym meta = "jvalue option \<times> string option \<times> string \<times> string option \<times> string option"

definition runQuery :: "(store \<Rightarrow> 'a \<times> store) \<Rightarrow> meta \<Rightarrow> 'a io" where
  "runQuery q m =
     (case m of (mob, rl, step, ip, device) \<Rightarrow>
        bind_io store_op (\<lambda>_.
        catch_io
          (bind_io (client_query q) (\<lambda>rows.
           bind_io (logEvent mob None rl step St_success ''Query executed'' None ip device) (\<lambda>_.
           return_io rows)))
          (\<lambda>err.
             bind_io (logEvent mob None rl step St_error err (Some err) ip device) (\<lambda>_.
             throw_io err))))"

section \<open>The SQL statements\<close>

text \<open>
  Each statement of the routes as its effect on the store and its result rows. A
  comparison with a \<^verbatim>\<open>NULL\<close> column is never true, so \<^verbatim>\<open>otp = $2\<close> selects rows
  whose code is present and equal.
\<close>

text \<open>\<^verbatim>\<open>SELECT id FROM users WHERE mobile = $1\<close>\<close>

definition sql_select_by_mobile :: "string \<Rightarrow> store \<Rightarrow> user list \<times> store" where
  "sql_select_by_mobile m s = (filter (\<lambda>u. mobile u = m) (users s), s)"

text \<open>\<^verbatim>\<open>UPDATE users SET otp = $1, otp_expires_at = $2 WHERE mobile = $3\<close>\<close>

definition set_otp :: "string \<Rightarrow> int \<Rightarrow> user \<Rightarrow> user" where
  "set_otp code expires u = u\<lparr>otp := Some code, otp_expires_at := Some expires\<rparr>"

definition sql_update_otp :: "string \<Rightarrow> int \<Rightarrow> string \<Rightarrow> store \<Rightarrow> unit \<times> store" where
  "sql_update_otp code expires m s =
     ((), s\<lparr>users := map (\<lambda>u. if mobile u = m then set_otp code expires u else u) (users s)\<rparr>)"

text \<open>
  \<^verbatim>\<open>INSERT INTO users (mobile, role, otp, otp_expires_at, is_active, is_verified)
  VALUES ($1, $2, $3, $4, true, false) RETURNING id\<close>
\<close>

definition otp_user :: "nat \<Rightarrow> string \<Rightarrow> string \<Rightarrow> string \<Rightarrow> int \<Rightarrow> user" where
  "otp_user i m rl code expires =
     \<lparr>user_id = i, mobile = m, email = None, password_hash = None, role = rl,
      is_active = True, is_verified = False, otp = Some code, otp_expires_at = Some expires\<rparr>"

definition sql_insert_otp_user ::
  "string \<Rightarrow> string \<Rightarrow> string \<Rightarrow> int \<Rightarrow> store \<Rightarrow> nat \<times> store" where
  "sql_insert_otp_user m rl code expires s =
     (next_id s,
      s\<lparr>users := users s @ [otp_user (next_id s) m rl code expires],
        next_id := Suc (next_id s)\<rparr>)"

text \<open>\<^verbatim>\<open>SELECT * FROM users WHERE mobile = $1 AND otp = $2\<close>\<close>

definition sql_select_by_mobile_otp :: "string \<Rightarrow> string \<Rightarrow> store \<Rightarrow> user list \<times> store" where
  "sql_select_by_mobile_otp m code s =
     (filter (\<lambda>u. mobile u = m \<and> otp u = Some code) (users s), s)"

text \<open>
  \<^verbatim>\<open>UPDATE users SET is_verified = true, otp = NULL, otp_expires_at = NULL WHERE id = $1\<close>
\<close>

definition set_verified :: "user \<Rightarrow> user" where
  "set_verified u = u\<lparr>is_verified := True, otp := None, otp_expires_at := None\<rparr>"

definition sql_update_verified :: "nat \<Rightarrow> store \<Rightarrow> unit \<times> store" where
  "sql_update_verified i s =
     ((), s\<lparr>users := map (\<lambda>u. if user_id u = i then set_verified u else u) (users s)\<rparr>)"

text \<open>\<^verbatim>\<open>SELECT id FROM candidate_profiles WHERE user_id = $1\<close>, and the same for employers.\<close>

definition sql_select_candidate_profile :: "nat \<Rightarrow> store \<Rightarrow> nat list \<times> store" where
  "sql_select_candidate_profile i s = (filter (\<lambda>p. p = i) (candidate_profiles s), s)"

definition sql_select_employer_profile :: "nat \<Rightarrow> store \<Rightarrow> nat list \<times> store" where
  "sql_select_employer_profile i s = (filter (\<lambda>p. p = i) (employer_profiles s), s)"

text \<open>
  \<^verbatim>\<open>INSERT INTO users (mobile, email, password_hash, role, is_active, is_verified)
  VALUES ($1, $2, $3, $4, true, false) RETURNING id, mobile, email, role\<close>
\<close>

definition registered_user ::
  "nat \<Rightarrow> string \<Rightarrow> string option \<Rightarrow> string option \<Rightarrow> string \<Rightarrow> user" where
  "registered_user i m em ph rl =
     \<lparr>user_id = i, mobile = m, email = em, password_hash = ph, role = rl,
      is_active = True, is_verified = False, otp = None, otp_expires_at = None\<rparr>"

definition sql_insert_user ::
  "string \<Rightarrow> string option \<Rightarrow> string option \<Rightarrow> string \<Rightarrow> store \<Rightarrow> user \<times> store" where
  "sql_insert_user m em ph rl s =
     (registered_user (next_id s) m em ph rl,
      s\<lparr>users := users s @ [registered_user (next_id s) m em ph rl],
        next_id := Suc (next_id s)\<rparr>)"

section \<open>Session tokens\<close>

text \<open>
  \<^verbatim>\<open>const JWT_SECRET = process.env.JWT_SECRET || "your-secret-key-change-in-production"\<close>,
  evaluated when the module is loaded.
\<close>

definition JWT_SECRET :: "(string \<times> string) list \<Rightarrow> string" where
  "JWT_SECRET e = or_else (getenv e ''JWT_SECRET'') ''your-secret-key-change-in-production''"

text \<open>
  \<^verbatim>\<open>jwt.sign({userId, mobile, role}, JWT_SECRET, {expiresIn: "30d"})\<close>: the token records
  its payload, the key, the issue instant (in seconds) and the expiry thirty days later.
\<close>

definition jwt_sign :: "nat \<Rightarrow> string \<Rightarrow> string \<Rightarrow> token io" where
  "jwt_sign i m rl w =
     (Inr \<lparr>tok_userId = i, tok_mobile = m, tok_role = rl, tok_key = JWT_SECRET (env w),
           tok_iat = clock w div 1000, tok_exp = clock w div 1000 + 30 * 24 * 60 * 60\<rparr>, w)"

text \<open>
  \<^verbatim>\<open>bcrypt.hash(password, 10)\<close>, kept symbolic: the hash of a password is a string that
  records the cost and the password it was made from.
\<close>

definition bcrypt_hash :: "string \<Rightarrow> nat \<Rightarrow> string" where
  "bcrypt_hash pw cost = ''$2a$'' @ toString_nat cost @ ''$'' @ pw"

section \<open>The routes\<close>

text \<open>
  The \<^verbatim>\<open>try\<close>/\<^verbatim>\<open>catch\<close> of a route: the \<^verbatim>\<open>catch\<close> block writes an error entry and
  answers 500. When the entry itself throws, the handler's promise rejects and the handler
  sends nothing.
\<close>

definition route_catch ::
  "outcome io \<Rightarrow> (string \<Rightarrow> unit io) \<Rightarrow> string \<Rightarrow> world \<Rightarrow> outcome \<times> world" where
  "route_catch body log_err msg w =
     (case body w of
        (Inr out, w') \<Rightarrow> (out, w')
      | (Inl e, w') \<Rightarrow>
          (case log_err e w' of
             (Inl e', w'') \<Rightarrow> (Unhandled e', w'')
           | (Inr _, w'') \<Rightarrow> (Sent 500 (Json_error msg), w'')))"

subsection \<open>POST /send-otp\<close>

definition send_otp_invalid :: "jvalue option \<Rightarrow> string \<Rightarrow> string \<Rightarrow> string \<Rightarrow> outcome io" where
  "send_otp_invalid mob rl ip device =
     bind_io (logEvent mob None (Some rl) ''SEND_OTP'' St_warning ''Invalid mobile number'' None
                (Some ip) (Some device)) (\<lambda>_.
     return_io (Sent 400 (Json_error ''Valid mobile number required'')))"

text \<open>The end of the \<^verbatim>\<open>try\<close> block: the code is printed and returned in development only.\<close>

definition send_otp_respond :: "string \<Rightarrow> string \<Rightarrow> outcome io" where
  "send_otp_respond m code =
     bind_io NODE_ENV (\<lambda>mode.
     if mode = Some ''development''
     then bind_io (console_log (Otp_line m code)) (\<lambda>_.
          return_io (Sent 200 (Json_otp_sent (Some code))))
     else return_io (Sent 200 (Json_otp_sent None)))"

definition send_otp_store :: "jvalue \<Rightarrow> string \<Rightarrow> string \<Rightarrow> string \<Rightarrow> string \<Rightarrow> outcome io" where
  "send_otp_store v rl ip device code =
     bind_io Date_now (\<lambda>now.
     let otpExpiresAt = now + 10 * 60 * 1000 in
     bind_io (runQuery (sql_select_by_mobile (pg_text v))
                (Some v, Some rl, ''SEND_OTP_CHECK_USER'', Some ip, Some device)) (\<lambda>existing.
     bind_io
       (case existing of
          u # _ \<Rightarrow>
            bind_io (runQuery (sql_update_otp code otpExpiresAt (pg_text v))
                       (Some v, Some rl, ''SEND_OTP_UPDATE_OTP'', Some ip, Some device)) (\<lambda>_.
            logEvent (Some v) (Some (user_id u)) (Some rl) ''SEND_OTP'' St_success
              ''OTP updated for existing user'' None (Some ip) (Some device))
        | [] \<Rightarrow>
            bind_io (runQuery (sql_insert_otp_user (pg_text v) rl code otpExpiresAt)
                       (Some v, Some rl, ''SEND_OTP_INSERT_USER'', Some ip, Some device)) (\<lambda>inserted.
            logEvent (Some v) (Some inserted) (Some rl) ''SEND_OTP'' St_success
              ''New user created and OTP assigned'' None (Some ip) (Some device))) (\<lambda>_.
     send_otp_respond (js_String v) code)))"

text \<open>
  The guard is \<^verbatim>\<open>!mobile || mobile.length < 10\<close>, on whatever value the body carries.
\<close>

definition send_otp_try :: "real \<Rightarrow> request \<Rightarrow> outcome io" where
  "send_otp_try r req =
     (let rl = defaulted (body_role req) ''candidate'' in
      case getClientInfo req of (ip, device) \<Rightarrow>
        (case body_mobile req of
           None \<Rightarrow> send_otp_invalid None rl ip device
         | Some v \<Rightarrow>
             if \<not> js_truthy v \<or> js_length_lt_10 v then send_otp_invalid (Some v) rl ip device
             else send_otp_store v rl ip device (generateOTP r)))"

definition send_otp :: "real \<Rightarrow> request \<Rightarrow> world \<Rightarrow> outcome \<times> world" where
  "send_otp r req =
     (case getClientInfo req of (ip, device) \<Rightarrow>
        route_catch
          (bind_io (console_log (Body_line req)) (\<lambda>_. send_otp_try r req))
          (\<lambda>e. logEvent (body_mobile req) None (Some (defaulted (body_role req) ''candidate''))
                  ''SEND_OTP'' St_error ''Failed to send OTP'' (Some e) (Some ip) (Some device))
          ''Failed to send OTP'')"

subsection \<open>POST /verify-otp\<close>

text \<open>
  \<^verbatim>\<open>new Date(user.otp_expires_at)\<close> in milliseconds: a \<^verbatim>\<open>NULL\<close> column reads as
  \<^verbatim>\<open>null\<close>, and \<^verbatim>\<open>new Date(null)\<close> is the epoch.
\<close>

definition expiry_ms :: "int option \<Rightarrow> int" where
  "expiry_ms e = (case e of None \<Rightarrow> 0 | Some t \<Rightarrow> t)"

definition verify_otp_reject ::
  "jvalue option \<Rightarrow> string \<Rightarrow> string \<Rightarrow> string \<Rightarrow> string \<Rightarrow> outcome io" where
  "verify_otp_reject mob ip device message answer =
     bind_io (logEvent mob None None ''VERIFY_OTP'' St_warning message None
                (Some ip) (Some device)) (\<lambda>_.
     return_io (Sent 400 (Json_error answer)))"

text \<open>Step 3: whether the user has completed a profile.\<close>

definition check_profile :: "jvalue \<Rightarrow> user \<Rightarrow> string \<Rightarrow> string \<Rightarrow> bool io" where
  "check_profile v u ip device =
     (if role u = ''candidate'' then
        bind_io (runQuery (sql_select_candidate_profile (user_id u))
                   (Some v, Some (role u), ''VERIFY_OTP_CHECK_CANDIDATE_PROFILE'',
                    Some ip, Some device)) (\<lambda>result.
        return_io (length result > 0))
      else if role u = ''employer'' then
        bind_io (runQuery (sql_select_employer_profile (user_id u))
                   (Some v, Some (role u), ''VERIFY_OTP_CHECK_EMPLOYER_PROFILE'',
                    Some ip, Some device)) (\<lambda>result.
        return_io (length result > 0))
      else return_io False)"

text \<open>Step 4: the redirect URL; it stays \<^verbatim>\<open>undefined\<close> for any other role.\<close>

definition redirectTo :: "string \<Rightarrow> bool \<Rightarrow> string option" where
  "redirectTo rl hasProfile =
     (if rl = ''candidate'' then
        Some (if hasProfile then ''/candidate/dashboard'' else ''/candidate/profile-form'')
      else if rl = ''employer'' then
        Some (if hasProfile then ''/employer/dashboard'' else ''/employer/profile-form'')
      else if rl = ''admin'' then Some ''/admin/dashboard''
      else None)"

text \<open>Steps 2 to 7, for the row the lookup returned.\<close>

definition verify_otp_accept :: "jvalue \<Rightarrow> user \<Rightarrow> string \<Rightarrow> string \<Rightarrow> outcome io" where
  "verify_otp_accept v u ip device =
     bind_io (runQuery (sql_update_verified (user_id u))
                (Some v, Some (role u), ''VERIFY_OTP_UPDATE_VERIFIED'', Some ip, Some device)) (\<lambda>_.
     bind_io (check_profile v u ip device) (\<lambda>hasProfile.
     bind_io (jwt_sign (user_id u) (mobile u) (role u)) (\<lambda>tok.
     bind_io (logEvent (Some v) (Some (user_id u)) (Some (role u)) ''VERIFY_OTP'' St_success
                ''OTP verified successfully'' None (Some ip) (Some device)) (\<lambda>_.
     return_io
       (Sent 200
          (Json_verified tok (user_id u) (mobile u) (role u) hasProfile
             (redirectTo (role u) hasProfile)))))))"

text \<open>Step 1: the lookup, then the expiry check against \<^verbatim>\<open>new Date()\<close>.\<close>

definition verify_otp_check :: "jvalue \<Rightarrow> string \<Rightarrow> string \<Rightarrow> string \<Rightarrow> outcome io" where
  "verify_otp_check v code ip device =
     bind_io (runQuery (sql_select_by_mobile_otp (pg_text v) code)
                (Some v, None, ''VERIFY_OTP_CHECK'', Some ip, Some device)) (\<lambda>rows.
     case rows of
       [] \<Rightarrow> verify_otp_reject (Some v) ip device ''Invalid OTP'' ''Invalid OTP''
     | u # _ \<Rightarrow>
         bind_io Date_now (\<lambda>now.
         if expiry_ms (otp_expires_at u) < now
         then verify_otp_reject (Some v) ip device ''OTP expired'' ''OTP expired''
         else verify_otp_accept v u ip device))"

definition verify_otp_try :: "request \<Rightarrow> outcome io" where
  "verify_otp_try req =
     (case getClientInfo req of (ip, device) \<Rightarrow>
        (case (body_mobile req, body_otp req) of
           (Some v, Some code) \<Rightarrow>
             if \<not> js_truthy v \<or> code = []
             then verify_otp_reject (body_mobile req) ip device
                    ''Missing mobile or OTP'' ''Mobile and OTP required''
             else verify_otp_check v code ip device
         | _ \<Rightarrow> verify_otp_reject (body_mobile req) ip device
                    ''Missing mobile or OTP'' ''Mobile and OTP required''))"

definition verify_otp :: "request \<Rightarrow> world \<Rightarrow> outcome \<times> world" where
  "verify_otp req =
     (case getClientInfo req of (ip, device) \<Rightarrow>
        route_catch (verify_otp_try req)
          (\<lambda>e. logEvent (body_mobile req) None None ''VERIFY_OTP'' St_error
                  ''Failed to verify OTP'' (Some e) (Some ip) (Some device))
          ''Failed to verify OTP'')"

subsection \<open>POST /register\<close>

definition register_reject ::
  "jvalue option \<Rightarrow> string \<Rightarrow> string \<Rightarrow> string \<Rightarrow> string \<Rightarrow> string \<Rightarrow> outcome io" where
  "register_reject mob rl ip device message answer =
     bind_io (logEvent mob None (Some rl) ''REGISTER'' St_warning message None
                (Some ip) (Some device)) (\<lambda>_.
     return_io (Sent 400 (Json_error answer)))"

text \<open>\<^verbatim>\<open>password ? await bcrypt.hash(password, 10) : null\<close> and \<^verbatim>\<open>email || null\<close>.\<close>

definition passwordHash :: "request \<Rightarrow> string option" where
  "passwordHash req =
     (if truthy (body_password req)
      then Some (bcrypt_hash (defaulted (body_password req) []) 10) else None)"

definition email_or_null :: "request \<Rightarrow> string option" where
  "email_or_null req = (if truthy (body_email req) then body_email req else None)"

definition register_insert :: "request \<Rightarrow> jvalue \<Rightarrow> string \<Rightarrow> string \<Rightarrow> string \<Rightarrow> outcome io" where
  "register_insert req v rl ip device =
     bind_io (runQuery (sql_insert_user (pg_text v) (email_or_null req) (passwordHash req) rl)
                (Some v, Some rl, ''REGISTER_INSERT_USER'', Some ip, Some device)) (\<lambda>u.
     bind_io (jwt_sign (user_id u) (mobile u) (role u)) (\<lambda>tok.
     bind_io (logEvent (Some v) (Some (user_id u)) (Some rl) ''REGISTER'' St_success
                ''Registration successful'' None (Some ip) (Some device)) (\<lambda>_.
     return_io
       (Sent 201 (Json_registered tok (user_id u) (mobile u) (email u) (role u))))))"

definition register_try :: "request \<Rightarrow> outcome io" where
  "register_try req =
     (let rl = defaulted (body_role req) ''candidate'' in
      case getClientInfo req of (ip, device) \<Rightarrow>
        (case body_mobile req of
           None \<Rightarrow>
             register_reject None rl ip device ''Mobile number missing'' ''Mobile number required''
         | Some v \<Rightarrow>
             if \<not> js_truthy v
             then register_reject (Some v) rl ip device
                    ''Mobile number missing'' ''Mobile number required''
             else
               bind_io (runQuery (sql_select_by_mobile (pg_text v))
                          (Some v, Some rl, ''REGISTER_CHECK_EXISTING'', Some ip, Some device))
                 (\<lambda>existing.
                    if length existing > 0
                    then register_reject (Some v) rl ip device
                           ''User already exists'' ''User already exists''
                    else register_insert req v rl ip device)))"

definition register :: "request \<Rightarrow> world \<Rightarrow> outcome \<times> world" where
  "register req =
     (case getClientInfo req of (ip, device) \<Rightarrow>
        route_catch (register_try req)
          (\<lambda>e. logEvent (body_mobile req) None (Some (defaulted (body_role req) ''candidate''))
                  ''REGISTER'' St_error ''Registration failed'' (Some e) (Some ip) (Some device))
          ''Registration failed'')"

section \<open>Start-up and runs\<close>

text \<open>
  \<^verbatim>\<open>validateEnv\<close> computes the required variables that are missing; the server exits with
  status 1 when there is one, before it listens.
\<close>

definition validateEnv :: "(string \<times> string) list \<Rightarrow> string list" where
  "validateEnv e = filter (\<lambda>key. \<not> truthy (getenv e key)) [''DATABASE_URL'', ''JWT_SECRET'']"

datatype started = Exit nat | Listening world

text \<open>Start-up of the server on environment \<open>e\<close>, with the store in state \<open>w\<close>.\<close>

definition server_start :: "(string \<times> string) list \<Rightarrow> world \<Rightarrow> started" where
  "server_start e w = (if length (validateEnv e) > 0 then Exit 1 else Listening (w\<lparr>env := e\<rparr>))"

text \<open>
  A request of this core, with the instant at which it is served; \<open>Send_otp\<close> also carries
  the value \<^verbatim>\<open>Math.random()\<close> returns.
\<close>

datatype op =
    Send_otp int real request
  | Verify_otp int request
  | Register int request

fun step :: "op \<Rightarrow> world \<Rightarrow> outcome \<times> world" where
  "step (Send_otp t r req) w = send_otp r req (w\<lparr>clock := t\<rparr>)"
| "step (Verify_otp t req) w = verify_otp req (w\<lparr>clock := t\<rparr>)"
| "step (Register t req) w = register req (w\<lparr>clock := t\<rparr>)"

text \<open>Serving a list of requests one after the other: the answers, and the final state.\<close>

fun run :: "op list \<Rightarrow> world \<Rightarrow> outcome list \<times> world" where
  "run [] w = ([], w)"
| "run (x # xs) w =
     (case step x w of (out, w') \<Rightarrow> (case run xs w' of (outs, w'') \<Rightarrow> (out # outs, w'')))"

section \<open>Notions used in the statements\<close>

text \<open>A request succeeded when the handler answered it with status 200.\<close>

definition succeeded :: "outcome \<Rightarrow> bool" where
  "succeeded out = (case out of Sent st _ \<Rightarrow> st = 200 | Unhandled _ \<Rightarrow> False)"

text \<open>The session tokens an answer carries.\<close>

definition tokens_of :: "outcome \<Rightarrow> token list" where
  "tokens_of out =
     (case out of
        Sent _ (Json_verified tok _ _ _ _ _) \<Rightarrow> [tok]
      | Sent _ (Json_registered tok _ _ _ _) \<Rightarrow> [tok]
      | _ \<Rightarrow> [])"

text \<open>The one-time code an answer carries, if any.\<close>

definition otp_of :: "outcome \<Rightarrow> string option" where
  "otp_of out = (case out of Sent _ (Json_otp_sent c) \<Rightarrow> c | _ \<Rightarrow> None)"

text \<open>Development mode, the only one in which \<^verbatim>\<open>/send-otp\<close> reveals the code.\<close>

definition development :: "world \<Rightarrow> bool" where
  "development w = (getenv (env w) ''NODE_ENV'' = Some ''development'')"

text \<open>The lines of the operational log that print a one-time code.\<close>

definition otp_lines :: "console_line list \<Rightarrow> console_line list" where
  "otp_lines ls = filter (\<lambda>l. case l of Otp_line _ _ \<Rightarrow> True | _ \<Rightarrow> False) ls"

text \<open>A string of six decimal digits.\<close>

definition is_digit :: "char \<Rightarrow> bool" where
  "is_digit c = (c \<in> set ''0123456789'')"

definition six_digits :: "string \<Rightarrow> bool" where
  "six_digits s = (length s = 6 \<and> list_all is_digit s)"

section \<open>Notions used in the proofs\<close>

text \<open>
  What logging leaves untouched: the store, the environment, the clock and the lines that
  print a code.
\<close>

definition stable :: "world \<Rightarrow> world \<Rightarrow> bool" where
  "stable w w' =
     (db w' = db w \<and> env w' = env w \<and> clock w' = clock w \<and>
      otp_lines (console w') = otp_lines (console w))"

text \<open>The result and final state of a computation satisfy \<open>Q\<close>.\<close>

definition wp :: "'a io \<Rightarrow> ((string + 'a) \<Rightarrow> world \<Rightarrow> bool) \<Rightarrow> world \<Rightarrow> bool" where
  "wp m Q w = (case m w of (r, w') \<Rightarrow> Q r w')"

text \<open>
  What each route guarantees whatever the store operations do: the environment and the
  clock are kept, the tokens are signed with the module's key, and the store is either
  untouched or changed by the one statement of the route that writes.
\<close>

definition send_otp_post :: "real \<Rightarrow> request \<Rightarrow> world \<Rightarrow> outcome \<Rightarrow> world \<Rightarrow> bool" where
  "send_otp_post r req w out w' =
    (env w' = env w \<and> clock w' = clock w \<and> tokens_of out = [] \<and>
     (development w \<or> otp_of out = None \<and> otp_lines (console w') = otp_lines (console w)) \<and>
     (db w' = db w \<or>
      (\<exists>v. body_mobile req = Some v \<and> js_truthy v \<and> \<not> js_length_lt_10 v \<and>
        (filter (\<lambda>u. mobile u = pg_text v) (users (db w)) \<noteq> [] \<and>
           db w' = snd (sql_update_otp (generateOTP r) (clock w + 600000) (pg_text v) (db w)) \<or>
         filter (\<lambda>u. mobile u = pg_text v) (users (db w)) = [] \<and>
           db w' = snd (sql_insert_otp_user (pg_text v) (defaulted (body_role req) ''candidate'')
                          (generateOTP r) (clock w + 600000) (db w))))))"

definition verify_otp_post :: "request \<Rightarrow> world \<Rightarrow> outcome \<Rightarrow> world \<Rightarrow> bool" where
  "verify_otp_post req w out w' =
    (env w' = env w \<and> clock w' = clock w \<and> otp_lines (console w') = otp_lines (console w) \<and>
     otp_of out = None \<and>
     list_all (\<lambda>tok. tok_key tok = JWT_SECRET (env w)) (tokens_of out) \<and>
     (db w' = db w \<and> \<not> succeeded out \<or>
      (\<exists>v code u rest. body_mobile req = Some v \<and> body_otp req = Some code \<and>
         js_truthy v \<and> code \<noteq> [] \<and>
         filter (\<lambda>u. mobile u = pg_text v \<and> otp u = Some code) (users (db w)) = u # rest \<and>
         \<not> expiry_ms (otp_expires_at u) < clock w \<and>
         db w' = snd (sql_update_verified (user_id u) (db w)))))"

definition register_post :: "request \<Rightarrow> world \<Rightarrow> outcome \<Rightarrow> world \<Rightarrow> bool" where
  "register_post req w out w' =
    (env w' = env w \<and> clock w' = clock w \<and> otp_lines (console w') = otp_lines (console w) \<and>
     otp_of out = None \<and>
     list_all (\<lambda>tok. tok_key tok = JWT_SECRET (env w)) (tokens_of out) \<and>
     (db w' = db w \<or>
      (\<exists>v. body_mobile req = Some v \<and> js_truthy v \<and>
         filter (\<lambda>u. mobile u = pg_text v) (users (db w)) = [] \<and>
         db w' = snd (sql_insert_user (pg_text v) (email_or_null req) (passwordHash req)
                        (defaulted (body_role req) ''candidate'') (db w)))))"

text \<open>
  The rows of \<open>us\<close> are still there in \<open>us'\<close>, at the same positions, with their id and
  mobile, and verified if they were.
\<close>

definition verified_kept :: "user list \<Rightarrow> user list \<Rightarrow> bool" where
  "verified_kept us us' =
     (length us \<le> length us' \<and>
      (\<forall>i < length us. user_id (us' ! i) = user_id (us ! i) \<and> mobile (us' ! i) = mobile (us ! i) \<and>
         (is_verified (us ! i) \<longrightarrow> is_verified (us' ! i))))"

text \<open>
  Two computations agree when, started with the same faults to come on stores that satisfy
  \<open>I1\<close> and \<open>I2\<close>, they end with the same result and the same faults to come, on stores
  that satisfy \<open>I1\<close> and \<open>I2\<close> again, the value returned satisfying \<open>P\<close>.
\<close>

definition agree ::
  "(store \<Rightarrow> bool) \<Rightarrow> (store \<Rightarrow> bool) \<Rightarrow> ('a \<Rightarrow> bool) \<Rightarrow> 'a io \<Rightarrow> 'a io \<Rightarrow> bool" where
  "agree I1 I2 P m1 m2 =
     (\<forall>w1 w2. faults w1 = faults w2 \<and> I1 (db w1) \<and> I2 (db w2) \<longrightarrow>
        fst (m1 w1) = fst (m2 w2) \<and> faults (snd (m1 w1)) = faults (snd (m2 w2)) \<and>
        I1 (db (snd (m1 w1))) \<and> I2 (db (snd (m2 w2))) \<and>
        (\<forall>x. fst (m1 w1) = Inr x \<longrightarrow> P x))"

section \<open>Example states and requests\<close>

definition example_env :: "(string \<times> string) list" where
  "example_env =
     [(''DATABASE_URL'', ''postgres://localhost/jobs''), (''JWT_SECRET'', ''s3cret''),
      (''NODE_ENV'', ''production'')]"

definition empty_store :: store where
  "empty_store = \<lparr>users = [], candidate_profiles = [], employer_profiles = [], next_id = 0\<rparr>"

text \<open>A production server on an empty store, at instant 1000, with no fault to come.\<close>

definition example_world :: world where
  "example_world =
     \<lparr>db = empty_store, auth_logs = [], console = [], faults = [], env = example_env,
      clock = 1000\<rparr>"

definition example_request :: request where
  "example_request =
     \<lparr>body_mobile = Some (JString ''9999999999''), body_role = None, body_otp = Some ''550000'',
      body_email = None, body_password = None, x_forwarded_for = None,
      remoteAddress = Some ''10.0.0.1'', user_agent = None\<rparr>"

text \<open>
  An identity whose code \<^verbatim>\<open>550000\<close> expires at instant 1000, and the server of
  \<open>example_world\<close> with that identity in its store, at instant 1000.
\<close>

definition example_identity :: user where
  "example_identity = otp_user 0 ''9999999999'' ''candidate'' ''550000'' 1000"

definition issued_world :: world where
  "issued_world = example_world\<lparr>db := empty_store\<lparr>users := [example_identity], next_id := 1\<rparr>\<rparr>"

text \<open>The same server in development mode and in test mode.\<close>

definition development_world :: world where
  "development_world =
     example_world\<lparr>env := [(''DATABASE_URL'', ''postgres://localhost/jobs''),
                           (''JWT_SECRET'', ''s3cret''), (''NODE_ENV'', ''development'')]\<rparr>"

definition test_world :: world where
  "test_world =
     example_world\<lparr>env := [(''DATABASE_URL'', ''postgres://localhost/jobs''),
                           (''JWT_SECRET'', ''s3cret''), (''NODE_ENV'', ''test'')]\<rparr>"

text \<open>The server whose only identity has been verified.\<close>

definition verified_world :: world where
  "verified_world =
     example_world\<lparr>db := empty_store\<lparr>users := [set_verified example_identity], next_id := 1\<rparr>\<rparr>"

section \<open>Rules for computations\<close>

lemma stable_refl [simp]: "stable w w"
  by (simp add: stable_def)

lemma stable_trans: "stable w w' \<Longrightarrow> stable w' w'' \<Longrightarrow> stable w w''"
  by (simp add: stable_def)

lemma otp_lines_append [simp]: "otp_lines (xs @ ys) = otp_lines xs @ otp_lines ys"
  by (simp add: otp_lines_def)

lemma otp_lines_single [simp]:
  "otp_lines [Body_line b] = []" "otp_lines [Event_line t st rl m ip sp msg] = []"
  "otp_lines [Error_line e] = []" "otp_lines [Otp_line m c] = [Otp_line m c]"
  by (simp_all add: otp_lines_def)

lemma jvalue_string [simp]:
  "js_truthy (JString s) = (s \<noteq> [])" "js_length_lt_10 (JString s) = (length s < 10)"
  "js_String (JString s) = s" "pg_text (JString s) = s"
  by (simp_all add: js_truthy_def js_length_lt_10_def js_String_def pg_text_def)

lemma wp_return: "Q (Inr x) w \<Longrightarrow> wp (return_io x) Q w"
  by (simp add: wp_def return_io_def)

lemma wp_throw: "Q (Inl e) w \<Longrightarrow> wp (throw_io e) Q w"
  by (simp add: wp_def throw_io_def)

lemma wp_bind:
  "wp m (\<lambda>r w'. case r of Inl e \<Rightarrow> Q (Inl e) w' | Inr x \<Rightarrow> wp (f x) Q w') w \<Longrightarrow> wp (bind_io m f) Q w"
  by (simp add: wp_def bind_io_def split: prod.splits sum.splits)

lemma wp_catch:
  "wp m (\<lambda>r w'. case r of Inl e \<Rightarrow> wp (h e) Q w' | Inr x \<Rightarrow> Q (Inr x) w') w \<Longrightarrow> wp (catch_io m h) Q w"
  by (simp add: wp_def catch_io_def split: prod.splits sum.splits)

lemma wp_store_op: "(\<And>r w'. stable w w' \<Longrightarrow> Q r w') \<Longrightarrow> wp store_op Q w"
  by (simp add: wp_def store_op_def stable_def split: list.splits option.splits)

lemma wp_Date_now: "Q (Inr (clock w)) w \<Longrightarrow> wp Date_now Q w"
  by (simp add: wp_def Date_now_def)

lemma wp_NODE_ENV: "Q (Inr (getenv (env w) ''NODE_ENV'')) w \<Longrightarrow> wp NODE_ENV Q w"
  by (simp add: wp_def NODE_ENV_def)

lemma wp_console_log: "Q (Inr ()) (w\<lparr>console := console w @ [l]\<rparr>) \<Longrightarrow> wp (console_log l) Q w"
  by (simp add: wp_def console_log_def)

lemma wp_jwt_sign:
  "(\<And>tok. tok_key tok = JWT_SECRET (env w) \<Longrightarrow> Q (Inr tok) w) \<Longrightarrow> wp (jwt_sign i m rl) Q w"
  by (simp add: wp_def jwt_sign_def)

lemma logEvent_stable: "stable w (snd (logEvent a b c d e f g h i w))"
  by (simp add: logEvent_def sql_insert_auth_log_def bind_io_def catch_io_def store_op_def
      console_log_def Date_now_def stable_def otp_lines_def split: list.splits option.splits)

lemma wp_logEvent:
  assumes "\<And>r w'. stable w w' \<Longrightarrow> Q r w'"
  shows "wp (logEvent a b c d e f g h i) Q w"
  using logEvent_stable [of w a b c d e f g h i] assms
  by (cases "logEvent a b c d e f g h i w") (simp add: wp_def)

lemma wp_client_query:
  assumes "\<And>e w'. stable w w' \<Longrightarrow> Q (Inl e) w'"
    and "\<And>w1. stable w w1 \<Longrightarrow> Q (Inr (fst (q (db w)))) (w1\<lparr>db := snd (q (db w))\<rparr>)"
  shows "wp (client_query q) Q w"
proof (cases "faults w")
  case Nil
  then show ?thesis
    using assms(2) [of w] by (simp add: wp_def client_query_def bind_io_def store_op_def)
next
  case (Cons f fs)
  show ?thesis
  proof (cases f)
    case None
    have "stable w (w\<lparr>faults := fs\<rparr>)" by (simp add: stable_def)
    from assms(2) [OF this] show ?thesis
      using Cons None by (simp add: wp_def client_query_def bind_io_def store_op_def)
  next
    case (Some e)
    have "stable w (w\<lparr>faults := fs\<rparr>)" by (simp add: stable_def)
    from assms(1) [OF this] show ?thesis
      using Cons Some by (simp add: wp_def client_query_def bind_io_def store_op_def)
  qed
qed

lemma wp_log_and_rethrow:
  assumes "\<And>e w'. stable w w' \<Longrightarrow> Q (Inl e) w'"
  shows "wp (bind_io (logEvent a b c d e f g h i) (\<lambda>_. throw_io err)) Q w"
  by (rule wp_bind, rule wp_logEvent) (auto split: sum.splits intro: assms wp_throw)

lemma wp_runQuery:
  assumes fail: "\<And>e w'. stable w w' \<Longrightarrow> Q (Inl e) w'"
    and ok: "\<And>r w'. stable (w\<lparr>db := snd (q (db w))\<rparr>) w' \<Longrightarrow>
                 r = Inr (fst (q (db w))) \<or> (\<exists>e. r = Inl e) \<Longrightarrow> Q r w'"
  shows "wp (runQuery q m) Q w"
proof -
  obtain mob rl step ip device where m: "m = (mob, rl, step, ip, device)"
    by (cases m) auto
  have body: "wp (catch_io
               (bind_io (client_query q) (\<lambda>rows.
                  bind_io (logEvent mob None rl step St_success ''Query executed'' None ip device)
                    (\<lambda>_. return_io rows)))
               (\<lambda>err. bind_io (logEvent mob None rl step St_error err (Some err) ip device)
                    (\<lambda>_. throw_io err))) Q w1" if s1: "stable w w1" for w1
  proof (rule wp_catch, rule wp_bind, rule wp_client_query, goal_cases)
    case (1 e w2)
    have "wp (bind_io (logEvent mob None rl step St_error e (Some e) ip device)
                (\<lambda>_. throw_io e)) Q w2"
      using fail s1 1 by (blast intro: stable_trans wp_log_and_rethrow)
    then show ?case by simp
  next
    case (2 w2)
    have db1: "db w1 = db w" using s1 by (simp add: stable_def)
    have s3: "stable (w\<lparr>db := snd (q (db w))\<rparr>) (w2\<lparr>db := snd (q (db w))\<rparr>)"
      using s1 2 by (simp add: stable_def)
    have later: "Q (Inr (fst (q (db w)))) w3 \<and>
       (\<forall>e. wp (bind_io (logEvent mob None rl step St_error e (Some e) ip device)
                         (\<lambda>_. throw_io e)) Q w3)"
      if "stable (w2\<lparr>db := snd (q (db w))\<rparr>) w3" for w3
    proof -
      from s3 that have s4: "stable (w\<lparr>db := snd (q (db w))\<rparr>) w3" by (blast intro: stable_trans)
      have "\<And>e w'. stable w3 w' \<Longrightarrow> Q (Inl e) w'"
        using ok s4 by (blast intro: stable_trans)
      then have "\<And>e. wp (bind_io (logEvent mob None rl step St_error e (Some e) ip device)
                         (\<lambda>_. throw_io e)) Q w3"
        by (rule wp_log_and_rethrow)
      moreover have "Q (Inr (fst (q (db w)))) w3" using ok s4 by blast
      ultimately show ?thesis by blast
    qed
    show ?case
      apply (simp add: db1)
      apply (rule wp_bind, rule wp_logEvent)
      apply (auto split: sum.splits dest: later intro!: wp_return)
      done
  qed
  show ?thesis
    unfolding runQuery_def m prod.case
    by (rule wp_bind, rule wp_store_op) (auto split: sum.splits intro: fail body)
qed

section \<open>What the routes do to the state\<close>

lemma wp_logEvent_ok:
  assumes "faults w = []" and "\<And>w'. stable w w' \<Longrightarrow> faults w' = [] \<Longrightarrow> Q (Inr ()) w'"
  shows "wp (logEvent a b c d e f g h i) Q w"
proof -
  have "fst (logEvent a b c d e f g h i w) = Inr () \<and> faults (snd (logEvent a b c d e f g h i w)) = []"
    using assms(1)
    by (simp add: logEvent_def sql_insert_auth_log_def bind_io_def catch_io_def store_op_def
      console_log_def Date_now_def)
  then show ?thesis
    using logEvent_stable [of w a b c d e f g h i] assms(2)
    by (cases "logEvent a b c d e f g h i w") (simp add: wp_def)
qed

lemma wp_runQuery_ok:
  assumes "faults w = []"
    and "\<And>w'. stable (w\<lparr>db := snd (q (db w))\<rparr>) w' \<Longrightarrow> faults w' = [] \<Longrightarrow> Q (Inr (fst (q (db w)))) w'"
  shows "wp (runQuery q m) Q w"
proof -
  obtain mob rl step ip device where m: "m = (mob, rl, step, ip, device)"
    by (cases m) auto
  have "wp (logEvent mob None rl step St_success ''Query executed'' None ip device)
          (\<lambda>r w'. Q (case r of Inl e \<Rightarrow> Inl e | Inr _ \<Rightarrow> Inr (fst (q (db w)))) w' \<and> r = Inr ())
          (w\<lparr>db := snd (q (db w))\<rparr>)"
    by (rule wp_logEvent_ok) (use assms in auto)
  then show ?thesis
    using assms(1)
    by (auto simp add: wp_def runQuery_def m bind_io_def catch_io_def store_op_def client_query_def
        return_io_def split: prod.splits sum.splits)
qed

lemma route_catch_rule:
  assumes "wp body (\<lambda>r w'. case r of Inr out \<Rightarrow> P out w'
             | Inl e \<Rightarrow> wp (log_err e) (\<lambda>r' w''. case r' of Inl e' \<Rightarrow> P (Unhandled e') w''
                                                  | Inr _ \<Rightarrow> P (Sent 500 (Json_error msg)) w'') w') w"
  shows "P (fst (route_catch body log_err msg w)) (snd (route_catch body log_err msg w))"
  using assms by (auto simp: wp_def route_catch_def split: prod.splits sum.splits)

lemmas wp_rules = wp_bind wp_catch wp_return wp_throw wp_Date_now wp_NODE_ENV
  wp_console_log wp_jwt_sign wp_logEvent wp_runQuery

lemmas wp_rules_ok = wp_bind wp_catch wp_return wp_throw wp_Date_now wp_NODE_ENV
  wp_console_log wp_jwt_sign wp_logEvent_ok wp_runQuery_ok

lemma send_otp_effect:
  "send_otp_post r req w (fst (send_otp r req w)) (snd (send_otp r req w))"
  unfolding send_otp_def
  apply (cases "getClientInfo req")
  apply (simp only: prod.case)
  apply (rule route_catch_rule)
  apply (rule wp_bind, rule wp_console_log)
  apply (simp add: send_otp_try_def send_otp_invalid_def send_otp_store_def send_otp_respond_def
      Let_def split: option.splits)
  apply (auto simp: stable_def send_otp_post_def tokens_of_def otp_of_def development_def
      sql_select_by_mobile_def
      split: sum.splits list.splits intro!: wp_rules)
  done

lemma verify_otp_effect:
  "verify_otp_post req w (fst (verify_otp req w)) (snd (verify_otp req w))"
  unfolding verify_otp_def
  apply (cases "getClientInfo req")
  apply (simp only: prod.case)
  apply (rule route_catch_rule)
  apply (simp add: verify_otp_try_def verify_otp_reject_def verify_otp_check_def verify_otp_accept_def
      check_profile_def Let_def split: option.splits)
  apply (auto simp: stable_def verify_otp_post_def tokens_of_def otp_of_def succeeded_def
      verify_otp_reject_def verify_otp_accept_def check_profile_def
      sql_select_by_mobile_otp_def sql_select_candidate_profile_def sql_select_employer_profile_def
      split: sum.splits list.splits intro!: wp_rules)
  done

lemma register_effect:
  "register_post req w (fst (register req w)) (snd (register req w))"
  unfolding register_def
  apply (cases "getClientInfo req")
  apply (simp only: prod.case)
  apply (rule route_catch_rule)
  apply (simp add: register_try_def register_reject_def register_insert_def
      Let_def split: option.splits)
  apply (auto simp: stable_def register_post_def tokens_of_def otp_of_def
      sql_select_by_mobile_def register_reject_def register_insert_def Let_def
      split: sum.splits list.splits intro!: wp_rules)
  done

section \<open>The routes when no store operation fails\<close>

lemma send_otp_value_ok:
  assumes "faults w = []" "body_mobile req = Some v" "js_truthy v" "\<not> js_length_lt_10 v"
  shows "fst (send_otp r req w) =
           Sent 200 (Json_otp_sent (if development w then Some (generateOTP r) else None)) \<and>
         db (snd (send_otp r req w)) =
           (if filter (\<lambda>u. mobile u = pg_text v) (users (db w)) = []
            then snd (sql_insert_otp_user (pg_text v) (defaulted (body_role req) ''candidate'')
                        (generateOTP r) (clock w + 600000) (db w))
            else snd (sql_update_otp (generateOTP r) (clock w + 600000) (pg_text v) (db w))) \<and>
         otp_lines (console (snd (send_otp r req w))) =
           otp_lines (console w) @
           (if development w then [Otp_line (js_String v) (generateOTP r)] else [])"
  unfolding send_otp_def
  apply (cases "getClientInfo req")
  apply (simp only: prod.case)
  apply (rule route_catch_rule)
  apply (rule wp_bind, rule wp_console_log)
  using assms
  apply (simp add: send_otp_try_def send_otp_store_def send_otp_respond_def Let_def)
  apply (auto simp: stable_def development_def sql_select_by_mobile_def
      split: sum.splits list.splits intro!: wp_rules_ok)
  done

lemma send_otp_ok:
  assumes "faults w = []" "body_mobile req = Some (JString m)" "10 \<le> length m"
  shows "fst (send_otp r req w) =
           Sent 200 (Json_otp_sent (if development w then Some (generateOTP r) else None)) \<and>
         db (snd (send_otp r req w)) =
           (if filter (\<lambda>u. mobile u = m) (users (db w)) = []
            then snd (sql_insert_otp_user m (defaulted (body_role req) ''candidate'')
                        (generateOTP r) (clock w + 600000) (db w))
            else snd (sql_update_otp (generateOTP r) (clock w + 600000) m (db w))) \<and>
         otp_lines (console (snd (send_otp r req w))) =
           otp_lines (console w) @ (if development w then [Otp_line m (generateOTP r)] else [])"
proof -
  have "js_truthy (JString m)" "\<not> js_length_lt_10 (JString m)"
    using assms(3) by (auto simp: js_truthy_def js_length_lt_10_def)
  from send_otp_value_ok [OF assms(1,2) this, of r] show ?thesis
    by (simp add: pg_text_def js_String_def)
qed

lemma send_otp_short:
  assumes "faults w = []" "body_mobile req = Some (JString m)" "length m < 10"
  shows "fst (send_otp r req w) = Sent 400 (Json_error ''Valid mobile number required'')"
  unfolding send_otp_def
  apply (cases "getClientInfo req")
  apply (simp only: prod.case)
  apply (rule route_catch_rule)
  apply (rule wp_bind, rule wp_console_log)
  using assms
  apply (simp add: send_otp_try_def send_otp_invalid_def js_length_lt_10_def Let_def)
  apply (auto simp: stable_def split: sum.splits list.splits intro!: wp_rules_ok)
  done

lemma verify_otp_value_ok:
  assumes "faults w = []" "body_mobile req = Some v" "body_otp req = Some code"
    "js_truthy v" "code \<noteq> []"
  shows "case filter (\<lambda>u. mobile u = pg_text v \<and> otp u = Some code) (users (db w)) of
           [] \<Rightarrow> fst (verify_otp req w) = Sent 400 (Json_error ''Invalid OTP'')
         | u # _ \<Rightarrow>
             if expiry_ms (otp_expires_at u) < clock w
             then fst (verify_otp req w) = Sent 400 (Json_error ''OTP expired'')
             else succeeded (fst (verify_otp req w)) \<and>
                  db (snd (verify_otp req w)) = snd (sql_update_verified (user_id u) (db w))"
  unfolding verify_otp_def
  apply (cases "getClientInfo req")
  apply (simp only: prod.case)
  apply (rule route_catch_rule)
  using assms
  apply (simp add: verify_otp_try_def verify_otp_check_def)
  apply (auto simp: stable_def succeeded_def verify_otp_reject_def verify_otp_accept_def check_profile_def
      sql_select_by_mobile_otp_def sql_select_candidate_profile_def sql_select_employer_profile_def
      split: sum.splits list.splits intro!: wp_rules_ok)
  done

lemma verify_otp_ok:
  assumes "faults w = []" "body_mobile req = Some (JString m)" "body_otp req = Some code"
    "m \<noteq> []" "code \<noteq> []"
  shows "case filter (\<lambda>u. mobile u = m \<and> otp u = Some code) (users (db w)) of
           [] \<Rightarrow> fst (verify_otp req w) = Sent 400 (Json_error ''Invalid OTP'')
         | u # _ \<Rightarrow>
             if expiry_ms (otp_expires_at u) < clock w
             then fst (verify_otp req w) = Sent 400 (Json_error ''OTP expired'')
             else succeeded (fst (verify_otp req w)) \<and>
                  db (snd (verify_otp req w)) = snd (sql_update_verified (user_id u) (db w))"
proof -
  have "js_truthy (JString m)" using assms(4) by (simp add: js_truthy_def)
  from verify_otp_value_ok [OF assms(1,2,3) this assms(5)] show ?thesis
    by (simp add: pg_text_def)
qed

lemma register_value_ok:
  assumes "faults w = []" "body_mobile req = Some v" "js_truthy v"
    "filter (\<lambda>u. mobile u = pg_text v) (users (db w)) = []"
  shows "(\<exists>tok. fst (register req w) =
            Sent 201 (Json_registered tok (next_id (db w)) (pg_text v) (email_or_null req)
                        (defaulted (body_role req) ''candidate''))) \<and>
         db (snd (register req w)) =
           snd (sql_insert_user (pg_text v) (email_or_null req) (passwordHash req)
                  (defaulted (body_role req) ''candidate'') (db w))"
  unfolding register_def
  apply (cases "getClientInfo req")
  apply (simp only: prod.case)
  apply (rule route_catch_rule)
  using assms
  apply (simp add: register_try_def Let_def)
  apply (auto simp: stable_def register_reject_def register_insert_def sql_select_by_mobile_def
      sql_insert_user_def registered_user_def
      split: sum.splits list.splits intro!: wp_rules_ok)
  done

lemma register_ok:
  assumes "faults w = []" "body_mobile req = Some (JString m)" "m \<noteq> []"
    "filter (\<lambda>u. mobile u = m) (users (db w)) = []"
  shows "(\<exists>tok. fst (register req w) =
            Sent 201 (Json_registered tok (next_id (db w)) m (email_or_null req)
                        (defaulted (body_role req) ''candidate''))) \<and>
         db (snd (register req w)) =
           snd (sql_insert_user m (email_or_null req) (passwordHash req)
                  (defaulted (body_role req) ''candidate'') (db w))"
proof -
  have t: "js_truthy (JString m)" using assms(3) by (simp add: js_truthy_def)
  have f: "filter (\<lambda>u. mobile u = pg_text (JString m)) (users (db w)) = []"
    using assms(4) by (simp add: pg_text_def)
  from register_value_ok [OF assms(1,2) t f] show ?thesis
    by (simp add: pg_text_def)
qed

section \<open>Rounding to doubles\<close>

lemma round_half_even_bounds:
  "real_of_int (round_half_even y) \<le> y + 1 / 2 \<and> y - 1 / 2 \<le> real_of_int (round_half_even y)"
  unfolding round_half_even_def Let_def by (auto; linarith)



lemma round_half_even_of_int [simp]: "round_half_even (real_of_int n) = n"
  by (simp add: round_half_even_def)

lemma exponent_bounds:
  assumes "0 < x"
  shows "2 powi exponent x \<le> x \<and> x < 2 powi (exponent x + 1)"
proof (cases "1 \<le> x")
  case True
  define n where "n = \<lfloor>x\<rfloor>"
  have n: "0 < n" using True by (simp add: n_def)
  have b: "2 ^ nat (bitlen n - 1) \<le> n" "n < 2 ^ nat (bitlen n)"
    using bitlen_bounds [OF n] by simp_all
  have pos: "1 \<le> bitlen n" using n by (simp add: bitlen_def floorlog_def)
  have e: "exponent x = bitlen n - 1" using True by (simp add: exponent_def n_def)
  have "real_of_int (2 ^ nat (bitlen n - 1)) \<le> real_of_int n" using b(1) by (simp only: of_int_le_iff)
  also have "real_of_int n \<le> x" by (simp add: n_def)
  finally have lo: "2 powi (bitlen n - 1) \<le> x"
    using pos by (simp add: power_int_nonneg_exp)
  have "x < real_of_int n + 1" by (simp add: n_def)
  also have "real_of_int n + 1 \<le> real_of_int (2 ^ nat (bitlen n))"
    using b(2) by (metis of_int_1 of_int_add of_int_le_iff zless_imp_add1_zle)
  finally have hi: "x < 2 powi (bitlen n)"
    using pos by (simp add: power_int_nonneg_exp)
  show ?thesis using lo hi by (simp add: e)
next
  case False
  define c where "c = \<lceil>1 / x\<rceil>"
  define k where "k = bitlen (c - 1)"
  have y: "1 < 1 / x" using False assms by simp
  have c: "0 < c - 1" using y unfolding c_def by (simp add: less_ceiling_iff)
  have b: "2 ^ nat (k - 1) \<le> c - 1" "c - 1 < 2 ^ nat k"
    using bitlen_bounds [OF c] by (simp_all add: k_def)
  have pos: "1 \<le> k" using c by (simp add: k_def bitlen_def floorlog_def)
  have e: "exponent x = - k" using False by (simp add: exponent_def k_def c_def)
  have "1 / x \<le> real_of_int c" by (simp add: c_def)
  also have "real_of_int c \<le> real_of_int (2 ^ nat k)"
    using b(2) by simp
  finally have "1 / x \<le> 2 ^ nat k" by simp
  then have "1 \<le> 2 ^ nat k * x" using assms by (simp add: field_simps)
  then have lo: "2 powi (- k) \<le> x"
    using pos by (simp add: power_int_minus power_int_nonneg_exp field_simps)
  have "real_of_int (2 ^ nat (k - 1)) \<le> real_of_int (c - 1)" using b(1) by (simp only: of_int_le_iff)
  also have "real_of_int (c - 1) < 1 / x" unfolding c_def by linarith
  finally have "2 ^ nat (k - 1) < 1 / x" by simp
  then have lt: "x < 1 / 2 ^ nat (k - 1)" using assms by (simp add: field_simps)
  have "(2::real) powi (- k + 1) = 1 / 2 ^ nat (k - 1)"
    using pos by (auto simp: power_int_def field_simps nat_diff_distrib)
  with lt have hi: "x < 2 powi (- k + 1)" by simp
  show ?thesis using lo hi by (simp add: e)
qed

lemma pow2_less_cancel: "(2::real) powi m < 2 powi n \<Longrightarrow> m < n"
  using power_int_increasing [of n m "2::real"] by (cases "m < n") auto

lemma pow2_le_iff: "m \<le> n \<Longrightarrow> (2::real) powi m \<le> 2 powi n"
  by (rule power_int_increasing) simp_all

lemma exponent_eq:
  assumes "2 powi k \<le> x" "x < 2 powi (k + 1)"
  shows "exponent x = k"
proof -
  have x: "0 < x" using assms(1) by (smt (verit) zero_less_power_int)
  note b = exponent_bounds [OF x]
  have "(2::real) powi exponent x < 2 powi (k + 1)" using b assms by linarith
  then have "exponent x < k + 1" by (rule pow2_less_cancel)
  moreover have "(2::real) powi k < 2 powi (exponent x + 1)" using b assms by linarith
  then have "k < exponent x + 1" by (rule pow2_less_cancel)
  ultimately show ?thesis by simp
qed


lemma double_pos:
  "0 < x \<Longrightarrow> double x =
     real_of_int (round_half_even (x / 2 powi (max (exponent x) (- 1022) - 52))) *
       2 powi (max (exponent x) (- 1022) - 52)"
  by (simp add: double_def Let_def)


lemma on_grid:
  assumes "k \<le> j"
  shows "real_of_int m * 2 powi j = real_of_int (m * 2 ^ nat (j - k)) * 2 powi k"
proof -
  have "(2::real) powi j = 2 powi (j - k) * 2 powi k"
    by (simp flip: power_int_add)
  also have "(2::real) powi (j - k) = 2 ^ nat (j - k)"
    using assms by (simp add: power_int_nonneg_exp)
  finally show ?thesis by simp
qed









text \<open>Numbers that are doubles: the integers below \<open>2\<^sup>5\<^sup>3\<close> and the binary fractions.\<close>

lemma double_exact:
  assumes "2 powi k \<le> x" "x < 2 powi (k + 1)" "- 1022 \<le> k"
    "x = real_of_int n * 2 powi (k - 52)"
  shows "double x = x"
proof -
  have x: "0 < x" using assms(1) by (smt (verit) zero_less_power_int)
  have e: "max (exponent x) (- 1022) - 52 = k - 52"
    using exponent_eq [OF assms(1,2)] assms(3) by simp
  have "x / 2 powi (k - 52) = real_of_int n" using assms(4) by simp
  then show ?thesis
    using double_pos [OF x] unfolding e by (simp add: assms(4) [symmetric])
qed

lemma double_of_int:
  assumes "0 \<le> n" "n < 2 ^ 53"
  shows "double (real_of_int n) = real_of_int n"
proof (cases "n = 0")
  case True
  then show ?thesis by (simp add: double_def)
next
  case False
  with assms(1) have n: "0 < n" by simp
  define k where "k = bitlen n - 1"
  have b: "2 ^ nat (bitlen n - 1) \<le> n" "n < 2 ^ nat (bitlen n)"
    using bitlen_bounds [OF n] by simp_all
  have pos: "0 \<le> k" using n by (simp add: k_def bitlen_def floorlog_def)
  have lt: "(2::int) ^ nat k < 2 ^ 53" using b(1) assms(2) by (simp add: k_def)
  have "\<not> 53 \<le> nat k"
  proof
    assume "53 \<le> nat k"
    then have "(2::int) ^ 53 \<le> 2 ^ nat k" by (rule power_increasing) simp
    with lt show False by linarith
  qed
  then have k52: "k \<le> 52" by simp
  have "real_of_int (2 ^ nat k) \<le> real_of_int n"
    using b(1) unfolding k_def by (simp only: of_int_le_iff)
  then have lo: "2 powi k \<le> real_of_int n" using pos by (simp add: power_int_nonneg_exp)
  have "real_of_int n < real_of_int (2 ^ nat (k + 1))"
    using b(2) unfolding k_def by (simp only: of_int_less_iff) simp
  then have hi: "real_of_int n < 2 powi (k + 1)" using pos by (simp add: power_int_nonneg_exp)
  have g: "real_of_int n = real_of_int (n * 2 ^ nat (52 - k)) * 2 powi (k - 52)"
    using on_grid [of "k - 52" 0 n] k52 by simp
  show ?thesis using lo hi _ g by (rule double_exact) (use pos in simp)
qed

lemma double_numeral: "(numeral k :: int) < 2 ^ 53 \<Longrightarrow> double (numeral k) = numeral k"
  using double_of_int [of "numeral k"] by simp

lemma double_examples: "double (1 / 2) = 1 / 2" "double (1 / 4) = 1 / 4" "double (3 / 4) = 3 / 4"
proof -
  show "double (1 / 2) = 1 / 2"
    by (rule double_exact [where k = "- 1" and n = "2 ^ 52"]) (simp_all add: power_int_minus)
  show "double (1 / 4) = 1 / 4"
    by (rule double_exact [where k = "- 2" and n = "2 ^ 52"]) (simp_all add: power_int_minus)
  show "double (3 / 4) = 3 / 4"
    by (rule double_exact [where k = "- 1" and n = "3 * 2 ^ 51"]) (simp_all add: power_int_minus)
qed

lemma otp_number_examples:
  "otp_number (1 / 2) = 550000" "otp_number (1 / 4) = 325000" "otp_number (3 / 4) = 775000"
  by (simp_all add: otp_number_def double_numeral)

lemma otp_number_rounded_up:
  "double (2234245783137675 / 2 ^ 52) = 2234245783137675 / 2 ^ 52 \<and>
   otp_number (2234245783137675 / 2 ^ 52) = 546492 \<and>
   \<lfloor>100000 + 2234245783137675 / 2 ^ 52 * 900000 :: real\<rfloor> = 546491"
  by code_simp

lemma generateOTP_examples:
  "generateOTP (1 / 2) = ''550000''" "generateOTP (1 / 4) = ''325000''"
  "generateOTP (3 / 4) = ''775000''"
  by (simp_all add: generateOTP_def otp_number_examples toString_def toString_nat.simps
      digit_char_def)

section \<open>Evaluation\<close>

text \<open>The defining equations, for evaluating the model on concrete inputs.\<close>

lemmas eval_defs =
  truthy_def or_else_def defaulted_def js_truthy_def js_length_lt_10_def js_String_def
  pg_text_def js_or_def getenv_def return_io_def throw_io_def bind_io_def
  catch_io_def store_op_def client_query_def console_log_def Date_now_def NODE_ENV_def
  digit_char_def toString_nat.simps toString_def double_examples otp_number_examples
  generateOTP_examples getClientInfo_def
  sql_insert_auth_log_def logEvent_def runQuery_def sql_select_by_mobile_def set_otp_def
  sql_update_otp_def otp_user_def sql_insert_otp_user_def sql_select_by_mobile_otp_def
  set_verified_def sql_update_verified_def sql_select_candidate_profile_def
  sql_select_employer_profile_def registered_user_def sql_insert_user_def JWT_SECRET_def
  jwt_sign_def bcrypt_hash_def route_catch_def send_otp_invalid_def send_otp_respond_def
  send_otp_store_def send_otp_try_def send_otp_def expiry_ms_def verify_otp_reject_def
  check_profile_def redirectTo_def verify_otp_accept_def verify_otp_check_def
  verify_otp_try_def verify_otp_def register_reject_def passwordHash_def email_or_null_def
  register_insert_def register_try_def register_def validateEnv_def server_start_def
  succeeded_def tokens_of_def otp_of_def development_def otp_lines_def is_digit_def six_digits_def
  example_env_def empty_store_def example_world_def example_request_def
  example_identity_def issued_world_def development_world_def test_world_def
  verified_world_def Let_def

section \<open>The audit log sink\<close>

text \<open>
  C3. The claim is that \<^verbatim>\<open>logEvent\<close> never throws to its caller, whatever fails in its own
  write, a failure to acquire a store connection included, and that the operation being
  logged is never aborted by it. The code acquires the connection outside its
  \<^verbatim>\<open>try\<close>: when \<^verbatim>\<open>pool.connect()\<close> rejects, \<^verbatim>\<open>logEvent\<close> throws. In the second run
  below every statement of \<^verbatim>\<open>/send-otp\<close> goes through and the row is written, then the
  connection for the log entry of the INSERT and for the entries of the \<^verbatim>\<open>catch\<close> blocks
  is refused: the handler's promise rejects and no answer is sent. In the third run the lookup
  goes through, the connection for its log entry is refused, and the request ends with
  status 500.
\<close>

theorem logEvent_connect_failure_propagates:
  "fst (logEvent (Some (JString ''9999999999'')) (Some 0) (Some ''candidate'') ''SEND_OTP'' St_success
          ''New user created and OTP assigned'' None (Some ''10.0.0.1'') None
          (example_world\<lparr>faults := [Some ''connect ECONNREFUSED'']\<rparr>))
     = Inl ''connect ECONNREFUSED'' \<and>
   fst (send_otp (1/2) example_request
          (example_world\<lparr>faults := [None, None, None, None, None, None,
             Some ''connect ECONNREFUSED'', Some ''connect ECONNREFUSED'',
             Some ''connect ECONNREFUSED'']\<rparr>))
     = Unhandled ''connect ECONNREFUSED'' \<and>
   fst (send_otp (1/2) example_request
          (example_world\<lparr>faults := [None, None, Some ''connect ECONNREFUSED'']\<rparr>))
     = Sent 500 (Json_error ''Failed to send OTP'')"
  by (simp add: eval_defs)

text \<open>Once the connection is acquired, \<^verbatim>\<open>logEvent\<close> does not throw.\<close>

lemma logEvent_returns_when_connected:
  "faults w = None # fs \<Longrightarrow> fst (logEvent a b c d e f g h i w) = Inr ()"
  by (simp add: logEvent_def sql_insert_auth_log_def bind_io_def catch_io_def store_op_def
      console_log_def Date_now_def split: list.splits option.splits)

section \<open>Code generation\<close>











section \<open>Verification of a code\<close>

lemma filter_unique_mobile:
  assumes "distinct (map mobile us)" "u \<in> set us"
  shows "filter (\<lambda>v. mobile v = mobile u \<and> P v) us = (if P u then [u] else [])"
  using assms
proof (induction us)
  case Nil
  then show ?case by simp
next
  case (Cons a us)
  show ?case
  proof (cases "a = u")
    case True
    have "mobile u \<notin> mobile ` set us" using Cons.prems(1) True by simp
    then have "\<forall>v \<in> set us. mobile v \<noteq> mobile u" by (metis imageI)
    then have "filter (\<lambda>v. mobile v = mobile u \<and> P v) us = []" by (simp add: filter_empty_conv)
    then show ?thesis using True by simp
  next
    case False
    then have "u \<in> set us" using Cons.prems(2) by simp
    moreover have "mobile a \<notin> mobile ` set us" using Cons.prems(1) by simp
    then have "mobile a \<noteq> mobile u" using \<open>u \<in> set us\<close> by (metis imageI)
    ultimately show ?thesis using Cons by simp
  qed
qed

lemma verify_otp_all_or_nothing:
  "list_all2 (\<lambda>v v'. v' = v \<or> v' = set_verified v)
     (users (db w)) (users (db (snd (verify_otp req w))))"
proof -
  have refl: "list_all2 (\<lambda>v v'. v' = v \<or> v' = set_verified v) us us" for us
    by (simp add: list_all2_same)
  have upd: "list_all2 (\<lambda>v v'. v' = v \<or> v' = set_verified v) us
               (map (\<lambda>u. if user_id u = i then set_verified u else u) us)" for us i
    by (simp add: list_all2_map2 list_all2_same)
  show ?thesis
    using verify_otp_effect [of req w] refl upd
    by (auto simp: verify_otp_post_def sql_update_verified_def)
qed

text \<open>
  C1, as the code has it. For a stored identity (mobiles being unique in the store) and a
  request that carries its mobile and a code, when no store operation fails,
  \<^verbatim>\<open>/verify-otp\<close> succeeds if and only if the code is the stored one and the instant of
  the request is not after the stored expiry, \<open>now \<le> expiry\<close> (a missing expiry reads
  as the epoch). After a success the row is the old one with the code and the expiry
  cleared and \<open>is_verified\<close> set. Whatever the store operations do, every row is afterwards
  either as it was or changed in all three columns at once.
\<close>

theorem verify_otp_succeeds_iff:
  assumes "faults w = []" "u \<in> set (users (db w))" "distinct (map mobile (users (db w)))"
    "body_mobile req = Some (JString (mobile u))" "body_otp req = Some code" "mobile u \<noteq> []" "code \<noteq> []"
  shows "(succeeded (fst (verify_otp req w)) \<longleftrightarrow>
            otp u = Some code \<and> clock w \<le> expiry_ms (otp_expires_at u)) \<and>
         (succeeded (fst (verify_otp req w)) \<longrightarrow>
            users (db (snd (verify_otp req w))) =
              map (\<lambda>v. if user_id v = user_id u then set_verified v else v) (users (db w)) \<and>
            set_verified u \<in> set (users (db (snd (verify_otp req w)))) \<and>
            is_verified (set_verified u) \<and> otp (set_verified u) = None \<and>
            otp_expires_at (set_verified u) = None) \<and>
         (\<forall>fs. list_all2 (\<lambda>v v'. v' = v \<or> v' = set_verified v)
                 (users (db w)) (users (db (snd (verify_otp req (w\<lparr>faults := fs\<rparr>))))))"
proof -
  have f: "filter (\<lambda>v. mobile v = mobile u \<and> otp v = Some code) (users (db w)) =
             (if otp u = Some code then [u] else [])"
    using assms(3,2) by (rule filter_unique_mobile)
  have ok: "case filter (\<lambda>v. mobile v = mobile u \<and> otp v = Some code) (users (db w)) of
           [] \<Rightarrow> fst (verify_otp req w) = Sent 400 (Json_error ''Invalid OTP'')
         | v # _ \<Rightarrow>
             if expiry_ms (otp_expires_at v) < clock w
             then fst (verify_otp req w) = Sent 400 (Json_error ''OTP expired'')
             else succeeded (fst (verify_otp req w)) \<and>
                  db (snd (verify_otp req w)) = snd (sql_update_verified (user_id v) (db w))"
    using assms by (intro verify_otp_ok) auto
  have a: "succeeded (fst (verify_otp req w)) \<longleftrightarrow>
            otp u = Some code \<and> clock w \<le> expiry_ms (otp_expires_at u)"
    using ok by (auto simp: f succeeded_def split: if_splits)
  have b: "users (db (snd (verify_otp req w))) =
              map (\<lambda>v. if user_id v = user_id u then set_verified v else v) (users (db w)) \<and>
            set_verified u \<in> set (users (db (snd (verify_otp req w))))"
    if "succeeded (fst (verify_otp req w))"
    using ok that a assms(2) by (auto simp: f sql_update_verified_def image_iff split: if_splits)
  have c: "list_all2 (\<lambda>v v'. v' = v \<or> v' = set_verified v)
                 (users (db w)) (users (db (snd (verify_otp req (w\<lparr>faults := fs\<rparr>)))))" for fs
    using verify_otp_all_or_nothing [of "w\<lparr>faults := fs\<rparr>" req] by simp
  have d: "is_verified (set_verified u) \<and> otp (set_verified u) = None \<and>
            otp_expires_at (set_verified u) = None"
    by (simp add: set_verified_def)
  show ?thesis using a b c d by blast
qed

theorem verify_otp_succeeds_iff_witness:
  "faults issued_world = [] \<and> example_identity \<in> set (users (db issued_world)) \<and>
   distinct (map mobile (users (db issued_world))) \<and>
   body_mobile example_request = Some (JString (mobile example_identity)) \<and>
   body_otp example_request = Some ''550000'' \<and> mobile example_identity \<noteq> [] \<and>
   otp example_identity = Some ''550000'' \<and>
   clock issued_world \<le> expiry_ms (otp_expires_at example_identity) \<and>
   succeeded (fst (verify_otp example_request issued_world)) \<and>
   users (db (snd (verify_otp example_request issued_world))) = [set_verified example_identity]"
  using verify_otp_succeeds_iff [of issued_world example_identity example_request "''550000''"]
  by (simp add: eval_defs)

text \<open>
  C1 as stated requires \<open>now < expiry\<close>. At the very instant of expiry the code matches,
  \<open>now < expiry\<close> is false, and the request succeeds.
\<close>

theorem verify_otp_succeeds_at_expiry_instant:
  "otp example_identity = Some ''550000'' \<and> otp_expires_at example_identity = Some 1000 \<and>
   clock issued_world = 1000 \<and> \<not> clock issued_world < 1000 \<and>
   body_mobile example_request = Some (JString (mobile example_identity)) \<and>
   body_otp example_request = otp example_identity \<and>
   succeeded (fst (verify_otp example_request issued_world))"
  by (simp add: eval_defs)

text \<open>
  C2. For a request that carries a mobile and a code (mobiles being unique in the store):
  when an identity has that mobile and that code and its expiry is strictly before the
  instant of the request, \<^verbatim>\<open>/verify-otp\<close> leaves the store as it is, whatever the store
  operations do, and answers 400 \<^verbatim>\<open>OTP expired\<close> when none of them fails; when no identity
  has that mobile with that code, it leaves the store as it is and answers 400
  \<^verbatim>\<open>Invalid OTP\<close>.
\<close>

theorem verify_otp_rejection_keeps_identity:
  assumes "body_mobile req = Some (JString m)" "body_otp req = Some code" "m \<noteq> []" "code \<noteq> []"
    "distinct (map mobile (users (db w)))"
  shows "(\<forall>u. u \<in> set (users (db w)) \<and> mobile u = m \<and> otp u = Some code \<and>
              expiry_ms (otp_expires_at u) < clock w \<longrightarrow>
            (faults w = [] \<longrightarrow> fst (verify_otp req w) = Sent 400 (Json_error ''OTP expired'')) \<and>
            db (snd (verify_otp req w)) = db w) \<and>
         ((\<forall>u \<in> set (users (db w)). mobile u = m \<longrightarrow> otp u \<noteq> Some code) \<longrightarrow>
            (faults w = [] \<longrightarrow> fst (verify_otp req w) = Sent 400 (Json_error ''Invalid OTP'')) \<and>
            db (snd (verify_otp req w)) = db w)"
proof (intro conjI allI impI)
  fix u
  assume u: "u \<in> set (users (db w)) \<and> mobile u = m \<and> otp u = Some code \<and>
              expiry_ms (otp_expires_at u) < clock w"
  then have f: "filter (\<lambda>v. mobile v = m \<and> otp v = Some code) (users (db w)) = [u]"
    using filter_unique_mobile [OF assms(5), of u "\<lambda>v. otp v = Some code"] by auto
  show "db (snd (verify_otp req w)) = db w"
    using verify_otp_effect [of req w] u assms by (auto simp: verify_otp_post_def f)
  assume "faults w = []"
  then show "fst (verify_otp req w) = Sent 400 (Json_error ''OTP expired'')"
    using verify_otp_ok [of w req m code] assms u by (simp add: f)
next
  assume n: "\<forall>u \<in> set (users (db w)). mobile u = m \<longrightarrow> otp u \<noteq> Some code"
  then have f: "filter (\<lambda>v. mobile v = m \<and> otp v = Some code) (users (db w)) = []"
    by (auto simp: filter_empty_conv)
  show "db (snd (verify_otp req w)) = db w"
    using verify_otp_effect [of req w] assms by (auto simp: verify_otp_post_def f)
  assume "faults w = []"
  then show "fst (verify_otp req w) = Sent 400 (Json_error ''Invalid OTP'')"
    using verify_otp_ok [of w req m code] assms by (simp add: f)
qed

theorem verify_otp_rejection_keeps_identity_witness:
  "body_mobile example_request = Some (JString ''9999999999'') \<and> body_otp example_request = Some ''550000'' \<and>
   distinct (map mobile (users (db issued_world))) \<and>
   example_identity \<in> set (users (db issued_world)) \<and> mobile example_identity = ''9999999999'' \<and>
   otp example_identity = Some ''550000'' \<and>
   expiry_ms (otp_expires_at example_identity) < clock (issued_world\<lparr>clock := 1001\<rparr>) \<and>
   faults issued_world = [] \<and>
   fst (verify_otp example_request (issued_world\<lparr>clock := 1001\<rparr>)) = Sent 400 (Json_error ''OTP expired'') \<and>
   db (snd (verify_otp example_request (issued_world\<lparr>clock := 1001\<rparr>))) = db issued_world \<and>
   fst (verify_otp (example_request\<lparr>body_otp := Some ''000000''\<rparr>) issued_world) =
     Sent 400 (Json_error ''Invalid OTP'') \<and>
   db (snd (verify_otp (example_request\<lparr>body_otp := Some ''000000''\<rparr>) issued_world)) = db issued_world"
  using verify_otp_rejection_keeps_identity
          [of example_request "''9999999999''" "''550000''" "issued_world\<lparr>clock := 1001\<rparr>"]
        verify_otp_rejection_keeps_identity
          [of "example_request\<lparr>body_otp := Some ''000000''\<rparr>" "''9999999999''" "''000000''" issued_world]
  by (simp add: eval_defs)

section \<open>Issuing a code\<close>




section \<open>Sequences of requests\<close>

lemma step_cases:
  obtains (same) "db (snd (step x w)) = db w"
  | (update_otp) code expires m where
      "db (snd (step x w)) = snd (sql_update_otp code expires m (db w))"
  | (insert_otp) m rl code expires where
      "filter (\<lambda>u. mobile u = m) (users (db w)) = []"
      "db (snd (step x w)) = snd (sql_insert_otp_user m rl code expires (db w))"
  | (update_verified) i where
      "db (snd (step x w)) = snd (sql_update_verified i (db w))"
  | (insert_user) m em ph rl where
      "filter (\<lambda>u. mobile u = m) (users (db w)) = []"
      "db (snd (step x w)) = snd (sql_insert_user m em ph rl (db w))"
proof (cases x)
  case (Send_otp t r req)
  show ?thesis
    using send_otp_effect [of r req "w\<lparr>clock := t\<rparr>"] Send_otp same update_otp insert_otp
    by (auto simp: send_otp_post_def)
next
  case (Verify_otp t req)
  show ?thesis
    using verify_otp_effect [of req "w\<lparr>clock := t\<rparr>"] Verify_otp same update_verified
    by (auto simp: verify_otp_post_def)
next
  case (Register t req)
  show ?thesis
    using register_effect [of req "w\<lparr>clock := t\<rparr>"] Register same insert_user
    by (auto simp: register_post_def)
qed

lemma step_distinct:
  assumes "distinct (map mobile (users (db w)))"
  shows "distinct (map mobile (users (db (snd (step x w)))))"
proof (cases rule: step_cases [of x w])
  case same
  then show ?thesis using assms by simp
next
  case (update_otp code expires m)
  have mm: "map (mobile \<circ> (\<lambda>u. if mobile u = m then set_otp code expires u else u)) us = map mobile us" for us
    by (induction us) (simp_all add: set_otp_def)
  show ?thesis using assms update_otp by (simp add: sql_update_otp_def mm)
next
  case (insert_otp m rl code expires)
  then show ?thesis using assms
    by (auto simp: sql_insert_otp_user_def otp_user_def filter_empty_conv)
next
  case (update_verified i)
  have mm: "map (mobile \<circ> (\<lambda>u. if user_id u = i then set_verified u else u)) us = map mobile us" for us
    by (induction us) (simp_all add: set_verified_def)
  show ?thesis using assms update_verified by (simp add: sql_update_verified_def mm)
next
  case (insert_user m em ph rl)
  then show ?thesis using assms
    by (auto simp: sql_insert_user_def registered_user_def filter_empty_conv)
qed

lemma run_Cons_snd: "snd (run (x # xs) w) = snd (run xs (snd (step x w)))"
  by (simp split: prod.splits)

lemma run_Cons_fst: "fst (run (x # xs) w) = fst (step x w) # fst (run xs (snd (step x w)))"
  by (simp split: prod.splits)

lemma run_distinct:
  "distinct (map mobile (users (db w))) \<Longrightarrow> distinct (map mobile (users (db (snd (run xs w)))))"
proof (induction xs arbitrary: w)
  case Nil
  then show ?case by simp
next
  case (Cons x xs)
  from Cons.prems have "distinct (map mobile (users (db (snd (step x w)))))" by (rule step_distinct)
  then have "distinct (map mobile (users (db (snd (run xs (snd (step x w)))))))" by (rule Cons.IH)
  then show ?case by (simp only: run_Cons_snd)
qed

text \<open>
  C7. For an accepted request (a mobile of at least ten characters) when no store operation
  fails: if no identity has the mobile, \<^verbatim>\<open>/send-otp\<close> adds exactly one row, with that
  mobile, unverified, holding the generated code and its expiry; if an identity has it, the
  rows with that mobile get the new code and expiry in place and no row is added. Whatever
  the store operations do, a store in which no two identities share a mobile stays so after
  any sequence of requests of this core.
\<close>

theorem send_otp_one_identity_per_mobile:
  assumes "faults w = []" "body_mobile req = Some (JString m)" "10 \<le> length m"
  shows "(m \<notin> mobile ` set (users (db w)) \<longrightarrow>
            (\<exists>u. users (db (snd (send_otp r req w))) = users (db w) @ [u] \<and> mobile u = m \<and>
                 \<not> is_verified u \<and> otp u = Some (generateOTP r) \<and>
                 otp_expires_at u = Some (clock w + 10 * 60 * 1000))) \<and>
         (m \<in> mobile ` set (users (db w)) \<longrightarrow>
            users (db (snd (send_otp r req w))) =
              map (\<lambda>u. if mobile u = m
                        then u\<lparr>otp := Some (generateOTP r),
                               otp_expires_at := Some (clock w + 10 * 60 * 1000)\<rparr>
                        else u) (users (db w)) \<and>
            length (users (db (snd (send_otp r req w)))) = length (users (db w))) \<and>
         (\<forall>w0 xs. distinct (map mobile (users (db w0))) \<longrightarrow>
            distinct (map mobile (users (db (snd (run xs w0))))))"
proof -
  have f: "filter (\<lambda>u. mobile u = m) (users (db w)) = [] \<longleftrightarrow> m \<notin> mobile ` set (users (db w))"
    by (auto simp: filter_empty_conv)
  show ?thesis
    using send_otp_ok [OF assms, of r] run_distinct
    by (auto simp: f sql_insert_otp_user_def sql_update_otp_def otp_user_def set_otp_def)
qed

theorem send_otp_one_identity_per_mobile_witness:
  "faults example_world = [] \<and> body_mobile example_request = Some (JString ''9999999999'') \<and>
   10 \<le> length ''9999999999'' \<and> ''9999999999'' \<notin> mobile ` set (users (db example_world)) \<and>
   users (db (snd (send_otp (1 / 2) example_request example_world))) =
     [otp_user 0 ''9999999999'' ''candidate'' ''550000'' 601000] \<and>
   faults issued_world = [] \<and> ''9999999999'' \<in> mobile ` set (users (db issued_world)) \<and>
   users (db (snd (send_otp (1 / 4) example_request issued_world))) =
     [otp_user 0 ''9999999999'' ''candidate'' ''325000'' 601000] \<and>
   distinct (map mobile (users (db issued_world))) \<and>
   map mobile (users (db (snd (run [Send_otp 2000 (1 / 4) example_request,
                                    Send_otp 3000 (3 / 4) example_request] issued_world)))) =
     [''9999999999'']"
  using send_otp_one_identity_per_mobile [of example_world example_request "''9999999999''" "1 / 2"]
        send_otp_one_identity_per_mobile [of issued_world example_request "''9999999999''" "1 / 4"]
  by (simp add: eval_defs)

lemma verified_kept_refl: "verified_kept us us"
  by (simp add: verified_kept_def)

lemma verified_kept_trans:
  "verified_kept us us' \<Longrightarrow> verified_kept us' us'' \<Longrightarrow> verified_kept us us''"
  by (auto simp: verified_kept_def)

lemma verified_kept_append: "verified_kept us (us @ [u])"
  by (simp add: verified_kept_def nth_append)

lemma verified_kept_map:
  assumes "\<And>u. user_id (f u) = user_id u \<and> mobile (f u) = mobile u \<and> (is_verified u \<longrightarrow> is_verified (f u))"
  shows "verified_kept us (map f us)"
  using assms by (simp add: verified_kept_def)

lemma step_verified_kept: "verified_kept (users (db w)) (users (db (snd (step x w))))"
proof (cases rule: step_cases [of x w])
  case same
  then show ?thesis by (simp add: verified_kept_refl)
next
  case (update_otp code expires m)
  then show ?thesis
    by (simp add: sql_update_otp_def) (rule verified_kept_map, simp add: set_otp_def)
next
  case (insert_otp m rl code expires)
  then show ?thesis by (simp add: sql_insert_otp_user_def verified_kept_append)
next
  case (update_verified i)
  then show ?thesis
    by (simp add: sql_update_verified_def) (rule verified_kept_map, simp add: set_verified_def)
next
  case (insert_user m em ph rl)
  then show ?thesis by (simp add: sql_insert_user_def verified_kept_append)
qed

lemma run_verified_kept: "verified_kept (users (db w)) (users (db (snd (run xs w))))"
proof (induction xs arbitrary: w)
  case Nil
  then show ?case by (simp add: verified_kept_refl)
next
  case (Cons x xs)
  show ?case
    unfolding run_Cons_snd
    using step_verified_kept [of w x] Cons.IH [of "snd (step x w)"]
    by (rule verified_kept_trans)
qed

text \<open>
  C9. An identity that is verified stays verified, with its id and its mobile, after any
  sequence of \<^verbatim>\<open>/send-otp\<close>, \<^verbatim>\<open>/verify-otp\<close> and \<^verbatim>\<open>/register\<close> requests, whatever the
  store operations do.
\<close>

theorem is_verified_monotonic:
  assumes "i < length (users (db w))" "is_verified (users (db w) ! i)"
  shows "i < length (users (db (snd (run xs w)))) \<and>
         is_verified (users (db (snd (run xs w))) ! i) \<and>
         user_id (users (db (snd (run xs w))) ! i) = user_id (users (db w) ! i) \<and>
         mobile (users (db (snd (run xs w))) ! i) = mobile (users (db w) ! i)"
  using run_verified_kept [of w xs] assms by (auto simp: verified_kept_def)

theorem is_verified_monotonic_witness:
  "0 < length (users (db verified_world)) \<and> is_verified (users (db verified_world) ! 0) \<and>
   map (\<lambda>u. (mobile u, is_verified u, otp u))
     (users (db (snd (run [Send_otp 2000 (1 / 4) example_request,
                           Register 3000 example_request,
                           Verify_otp 4000 (example_request\<lparr>body_otp := Some ''000000''\<rparr>),
                           Register 5000 (example_request\<lparr>body_mobile := Some (JString ''12345'')\<rparr>)]
                       verified_world)))) =
     [(''9999999999'', True, Some ''325000''), (''12345'', False, None)]"
  using is_verified_monotonic [of 0 verified_world
          "[Send_otp 2000 (1 / 4) example_request,
            Register 3000 example_request,
            Verify_otp 4000 (example_request\<lparr>body_otp := Some ''000000''\<rparr>),
            Register 5000 (example_request\<lparr>body_mobile := Some (JString ''12345'')\<rparr>)]"]
  by (simp add: eval_defs)

section \<open>The signing secret\<close>

lemma step_env: "env (snd (step x w)) = env w"
proof (cases x)
  case (Send_otp t r req)
  then show ?thesis using send_otp_effect [of r req "w\<lparr>clock := t\<rparr>"] by (simp add: send_otp_post_def)
next
  case (Verify_otp t req)
  then show ?thesis using verify_otp_effect [of req "w\<lparr>clock := t\<rparr>"] by (simp add: verify_otp_post_def)
next
  case (Register t req)
  then show ?thesis using register_effect [of req "w\<lparr>clock := t\<rparr>"] by (simp add: register_post_def)
qed

lemma step_tokens: "list_all (\<lambda>tok. tok_key tok = JWT_SECRET (env w)) (tokens_of (fst (step x w)))"
proof (cases x)
  case (Send_otp t r req)
  then show ?thesis using send_otp_effect [of r req "w\<lparr>clock := t\<rparr>"] by (simp add: send_otp_post_def)
next
  case (Verify_otp t req)
  then show ?thesis using verify_otp_effect [of req "w\<lparr>clock := t\<rparr>"] by (simp add: verify_otp_post_def)
next
  case (Register t req)
  then show ?thesis using register_effect [of req "w\<lparr>clock := t\<rparr>"] by (simp add: register_post_def)
qed

lemma run_tokens:
  "list_all (\<lambda>out. list_all (\<lambda>tok. tok_key tok = JWT_SECRET (env w)) (tokens_of out)) (fst (run xs w))"
proof (induction xs arbitrary: w)
  case Nil
  then show ?case by simp
next
  case (Cons x xs)
  show ?case
    unfolding run_Cons_fst
    using step_tokens [of w x] Cons.IH [of "snd (step x w)"] by (simp add: step_env)
qed

lemma validateEnv_secret:
  "validateEnv e = [] \<Longrightarrow> truthy (getenv e ''JWT_SECRET'')"
  by (simp add: validateEnv_def split: if_splits)

lemma JWT_SECRET_supplied:
  "truthy (getenv e ''JWT_SECRET'') \<Longrightarrow> getenv e ''JWT_SECRET'' = Some (JWT_SECRET e) \<and> JWT_SECRET e \<noteq> []"
  by (auto simp: truthy_def JWT_SECRET_def or_else_def split: option.splits)

text \<open>
  C4. A server started without \<^verbatim>\<open>JWT_SECRET\<close> (absent or empty) exits with status 1
  before it listens. A server that listens has the secret in its environment, and every
  token in the answer to any request it serves is signed with that supplied, non-empty
  secret: the fallback key of \<^verbatim>\<open>auth.js\<close> never signs a token.
\<close>

theorem signing_secret_required_at_startup:
  "(\<not> truthy (getenv e ''JWT_SECRET'') \<longrightarrow> server_start e w = Exit 1) \<and>
   (\<forall>w0. server_start e w = Listening w0 \<longrightarrow>
      truthy (getenv e ''JWT_SECRET'') \<and>
      (\<forall>xs. list_all (\<lambda>out. list_all (\<lambda>tok. getenv e ''JWT_SECRET'' = Some (tok_key tok) \<and> tok_key tok \<noteq> [])
                               (tokens_of out))
                (fst (run xs w0))))"
proof -
  have a: "server_start e w = Exit 1" if "\<not> truthy (getenv e ''JWT_SECRET'')"
    using that by (simp add: server_start_def validateEnv_def)
  have b: "truthy (getenv e ''JWT_SECRET'') \<and>
      (\<forall>xs. list_all (\<lambda>out. list_all (\<lambda>tok. getenv e ''JWT_SECRET'' = Some (tok_key tok) \<and> tok_key tok \<noteq> [])
                               (tokens_of out))
                (fst (run xs w0)))" if "server_start e w = Listening w0" for w0
  proof -
    from that have v: "validateEnv e = []" and w0: "env w0 = e"
      by (auto simp: server_start_def split: if_splits)
    from v have t: "truthy (getenv e ''JWT_SECRET'')" by (rule validateEnv_secret)
    have k: "getenv e ''JWT_SECRET'' = Some (JWT_SECRET (env w0)) \<and> JWT_SECRET (env w0) \<noteq> []"
      using JWT_SECRET_supplied [OF t] w0 by simp
    have "list_all (\<lambda>out. list_all (\<lambda>tok. getenv e ''JWT_SECRET'' = Some (tok_key tok) \<and> tok_key tok \<noteq> [])
                               (tokens_of out)) (fst (run xs w0))" for xs
      using run_tokens [of w0 xs] k by (auto simp: list_all_iff)
    with t show ?thesis by blast
  qed
  show ?thesis using a b by blast
qed

theorem signing_secret_required_at_startup_witness:
  "\<not> truthy (getenv [(''DATABASE_URL'', ''postgres://localhost/jobs'')] ''JWT_SECRET'') \<and>
   server_start [(''DATABASE_URL'', ''postgres://localhost/jobs'')] example_world = Exit 1 \<and>
   server_start example_env example_world = Listening example_world \<and>
   getenv example_env ''JWT_SECRET'' = Some ''s3cret'' \<and>
   map (map tok_key \<circ> tokens_of)
     (fst (run [Send_otp 1000 (1 / 2) example_request, Verify_otp 2000 example_request]
            example_world)) = [[], [''s3cret'']]"
  using signing_secret_required_at_startup [of "[(''DATABASE_URL'', ''postgres://localhost/jobs'')]" example_world]
    signing_secret_required_at_startup [of example_env example_world]
  by (simp add: eval_defs)

section \<open>Registration\<close>

text \<open>
  When no store operation fails, \<^verbatim>\<open>/register\<close> with any non-empty string as mobile that no
  identity has answers 201 and adds the identity, whatever the length of the string, and
  \<^verbatim>\<open>/send-otp\<close> with a string shorter than ten characters answers 400
  \<^verbatim>\<open>Valid mobile number required\<close> and leaves the store as it is.
\<close>

lemma register_string_of_any_length:
  assumes "faults w = []" "body_mobile req = Some (JString m)" "m \<noteq> []"
    "m \<notin> mobile ` set (users (db w))"
  shows "(\<exists>tok. fst (register req w) =
            Sent 201 (Json_registered tok (next_id (db w)) m (email_or_null req)
                        (defaulted (body_role req) ''candidate''))) \<and>
         users (db (snd (register req w))) =
           users (db w) @ [registered_user (next_id (db w)) m (email_or_null req)
                             (passwordHash req) (defaulted (body_role req) ''candidate'')] \<and>
         (length m < 10 \<longrightarrow>
            fst (send_otp r req w) = Sent 400 (Json_error ''Valid mobile number required'') \<and>
            db (snd (send_otp r req w)) = db w)"
proof -
  have f: "filter (\<lambda>u. mobile u = m) (users (db w)) = []"
    using assms(4) by (auto simp: filter_empty_conv)
  have a: "(\<exists>tok. fst (register req w) =
            Sent 201 (Json_registered tok (next_id (db w)) m (email_or_null req)
                        (defaulted (body_role req) ''candidate''))) \<and>
         users (db (snd (register req w))) =
           users (db w) @ [registered_user (next_id (db w)) m (email_or_null req)
                             (passwordHash req) (defaulted (body_role req) ''candidate'')]"
    using register_ok [OF assms(1-3) f] by (simp add: sql_insert_user_def)
  have b: "fst (send_otp r req w) = Sent 400 (Json_error ''Valid mobile number required'') \<and>
            db (snd (send_otp r req w)) = db w" if "length m < 10"
    using send_otp_short [OF assms(1,2) that, of r] send_otp_effect [of r req w] that assms(2)
    by (auto simp: send_otp_post_def)
  show ?thesis using a b by blast
qed

text \<open>
  C10. The claim is that \<^verbatim>\<open>/send-otp\<close> rejects every mobile shorter than ten characters,
  so that an identity with such a mobile can only come from \<^verbatim>\<open>/register\<close>. The guard of
  \<^verbatim>\<open>/send-otp\<close> is \<^verbatim>\<open>!mobile || mobile.length < 10\<close>, and the body is parsed JSON: for the
  number \<^verbatim>\<open>12345\<close> the property \<^verbatim>\<open>length\<close> is undefined and the comparison false, so
  the request \<^verbatim>\<open>{"mobile": 12345}\<close> is answered 200 and an identity with the
  five-character mobile \<^verbatim>\<open>12345\<close> is stored, with a code. The same mobile as a string is
  answered 400 by \<^verbatim>\<open>/send-otp\<close> and accepted by \<^verbatim>\<open>/register\<close>.
\<close>

theorem send_otp_stores_short_numeric_mobile:
  "fst (send_otp (1 / 2) (example_request\<lparr>body_mobile := Some (JNumber ''12345'')\<rparr>) example_world) =
     Sent 200 (Json_otp_sent None) \<and>
   users (db (snd (send_otp (1 / 2) (example_request\<lparr>body_mobile := Some (JNumber ''12345'')\<rparr>)
                     example_world))) =
     [otp_user 0 ''12345'' ''candidate'' ''550000'' 601000] \<and>
   length ''12345'' = 5 \<and>
   fst (send_otp (1 / 2) (example_request\<lparr>body_mobile := Some (JString ''12345'')\<rparr>) example_world) =
     Sent 400 (Json_error ''Valid mobile number required'') \<and>
   users (db (snd (send_otp (1 / 2) (example_request\<lparr>body_mobile := Some (JString ''12345'')\<rparr>)
                     example_world))) = [] \<and>
   users (db (snd (register (example_request\<lparr>body_mobile := Some (JString ''12345'')\<rparr>)
                     example_world))) =
     [registered_user 0 ''12345'' None None ''candidate'']"
  by (simp add: eval_defs)

section \<open>What an answer reveals\<close>

lemma agree_return: "P x \<Longrightarrow> agree I1 I2 P (return_io x) (return_io x)"
  by (simp add: agree_def return_io_def)

lemma agree_throw: "agree I1 I2 P (throw_io e) (throw_io e)"
  by (simp add: agree_def throw_io_def)

lemma agreeD:
  assumes "agree I1 I2 P m1 m2" "faults w1 = faults w2" "I1 (db w1)" "I2 (db w2)"
    "m1 w1 = (r1, w1')" "m2 w2 = (r2, w2')"
  shows "r1 = r2" "faults w1' = faults w2'" "I1 (db w1')" "I2 (db w2')" "r1 = Inr x \<Longrightarrow> P x"
proof -
  have "fst (m1 w1) = fst (m2 w2) \<and> faults (snd (m1 w1)) = faults (snd (m2 w2)) \<and>
        I1 (db (snd (m1 w1))) \<and> I2 (db (snd (m2 w2))) \<and>
        (\<forall>x. fst (m1 w1) = Inr x \<longrightarrow> P x)"
    using assms(1-4) unfolding agree_def by blast
  then show "r1 = r2" "faults w1' = faults w2'" "I1 (db w1')" "I2 (db w2')" "r1 = Inr x \<Longrightarrow> P x"
    using assms(5,6) by simp_all
qed

lemma agree_bind:
  assumes "agree I1 I2 P m1 m2" and "\<And>x. P x \<Longrightarrow> agree I1 I2 Q (f x) (g x)"
  shows "agree I1 I2 Q (bind_io m1 f) (bind_io m2 g)"
  unfolding agree_def
proof (intro allI impI)
  fix w1 w2 :: world
  assume h: "faults w1 = faults w2 \<and> I1 (db w1) \<and> I2 (db w2)"
  obtain r1 w1' where m1: "m1 w1 = (r1, w1')" by (cases "m1 w1") auto
  obtain r2 w2' where m2: "m2 w2 = (r2, w2')" by (cases "m2 w2") auto
  from h have h': "faults w1 = faults w2" "I1 (db w1)" "I2 (db w2)" by simp_all
  note a = agreeD [OF assms(1) h' m1 m2]
  show "fst (bind_io m1 f w1) = fst (bind_io m2 g w2) \<and>
        faults (snd (bind_io m1 f w1)) = faults (snd (bind_io m2 g w2)) \<and>
        I1 (db (snd (bind_io m1 f w1))) \<and> I2 (db (snd (bind_io m2 g w2))) \<and>
        (\<forall>x. fst (bind_io m1 f w1) = Inr x \<longrightarrow> Q x)"
  proof (cases r1)
    case (Inl e)
    with a(1) have r2: "r2 = Inl e" by simp
    have e1: "bind_io m1 f w1 = (Inl e, w1')" using m1 Inl by (simp add: bind_io_def)
    have e2: "bind_io m2 g w2 = (Inl e, w2')" using m2 r2 by (simp add: bind_io_def)
    show ?thesis unfolding e1 e2 using a(2-4) by simp
  next
    case (Inr x)
    with a(1) have r2: "r2 = Inr x" by simp
    have ag: "agree I1 I2 Q (f x) (g x)" using a(5) [OF Inr] by (rule assms(2))
    have e1: "bind_io m1 f w1 = f x w1'" using m1 Inr by (simp add: bind_io_def)
    have e2: "bind_io m2 g w2 = g x w2'" using m2 r2 by (simp add: bind_io_def)
    show ?thesis unfolding e1 e2 using ag a(2-4) unfolding agree_def by blast
  qed
qed

lemma agree_catch:
  assumes "agree I1 I2 P m1 m2" and "\<And>e. agree I1 I2 P (h1 e) (h2 e)"
  shows "agree I1 I2 P (catch_io m1 h1) (catch_io m2 h2)"
  unfolding agree_def
proof (intro allI impI)
  fix w1 w2 :: world
  assume h: "faults w1 = faults w2 \<and> I1 (db w1) \<and> I2 (db w2)"
  obtain r1 w1' where m1: "m1 w1 = (r1, w1')" by (cases "m1 w1") auto
  obtain r2 w2' where m2: "m2 w2 = (r2, w2')" by (cases "m2 w2") auto
  from h have h': "faults w1 = faults w2" "I1 (db w1)" "I2 (db w2)" by simp_all
  note a = agreeD [OF assms(1) h' m1 m2]
  show "fst (catch_io m1 h1 w1) = fst (catch_io m2 h2 w2) \<and>
        faults (snd (catch_io m1 h1 w1)) = faults (snd (catch_io m2 h2 w2)) \<and>
        I1 (db (snd (catch_io m1 h1 w1))) \<and> I2 (db (snd (catch_io m2 h2 w2))) \<and>
        (\<forall>x. fst (catch_io m1 h1 w1) = Inr x \<longrightarrow> P x)"
  proof (cases r1)
    case (Inl e)
    with a(1) have r2: "r2 = Inl e" by simp
    have ag: "agree I1 I2 P (h1 e) (h2 e)" by (rule assms(2))
    have e1: "catch_io m1 h1 w1 = h1 e w1'" using m1 Inl by (simp add: catch_io_def)
    have e2: "catch_io m2 h2 w2 = h2 e w2'" using m2 r2 by (simp add: catch_io_def)
    show ?thesis unfolding e1 e2 using ag a(2-4) unfolding agree_def by blast
  next
    case (Inr x)
    with a(1) have r2: "r2 = Inr x" by simp
    have e1: "catch_io m1 h1 w1 = (Inr x, w1')" using m1 Inr by (simp add: catch_io_def)
    have e2: "catch_io m2 h2 w2 = (Inr x, w2')" using m2 r2 by (simp add: catch_io_def)
    show ?thesis unfolding e1 e2 using a(2-4) a(5) [OF Inr] by simp
  qed
qed

lemma agree_store_op: "agree I1 I2 (\<lambda>_. True) store_op store_op"
  by (simp add: agree_def store_op_def split: list.splits option.splits)

lemma agree_logEvent:
  "agree I1 I2 (\<lambda>_. True) (logEvent a b c d e f g h i) (logEvent a' b' c' d' e' f' g' h' i')"
  by (simp add: agree_def logEvent_def sql_insert_auth_log_def bind_io_def catch_io_def store_op_def
      console_log_def Date_now_def split: list.splits option.splits)

lemma agree_client_query:
  assumes "\<And>s1 s2. I1 s1 \<Longrightarrow> I2 s2 \<Longrightarrow>
             fst (q1 s1) = fst (q2 s2) \<and> P (fst (q1 s1)) \<and> I1 (snd (q1 s1)) \<and> I2 (snd (q2 s2))"
  shows "agree I1 I2 P (client_query q1) (client_query q2)"
  unfolding agree_def
proof (intro allI impI)
  fix w1 w2 :: world
  assume h: "faults w1 = faults w2 \<and> I1 (db w1) \<and> I2 (db w2)"
  then have k: "fst (q1 (db w1)) = fst (q2 (db w2)) \<and> P (fst (q1 (db w1))) \<and>
                I1 (snd (q1 (db w1))) \<and> I2 (snd (q2 (db w2)))"
    using assms by blast
  show "fst (client_query q1 w1) = fst (client_query q2 w2) \<and>
        faults (snd (client_query q1 w1)) = faults (snd (client_query q2 w2)) \<and>
        I1 (db (snd (client_query q1 w1))) \<and> I2 (db (snd (client_query q2 w2))) \<and>
        (\<forall>x. fst (client_query q1 w1) = Inr x \<longrightarrow> P x)"
    using h k
    by (auto simp: client_query_def bind_io_def store_op_def split: list.splits option.splits)
qed

lemma agree_runQuery:
  assumes "\<And>s1 s2. I1 s1 \<Longrightarrow> I2 s2 \<Longrightarrow>
             fst (q1 s1) = fst (q2 s2) \<and> P (fst (q1 s1)) \<and> I1 (snd (q1 s1)) \<and> I2 (snd (q2 s2))"
  shows "agree I1 I2 P (runQuery q1 m1) (runQuery q2 m2)"
proof -
  obtain a1 b1 c1 d1 e1 where m1: "m1 = (a1, b1, c1, d1, e1)" by (cases m1) auto
  obtain a2 b2 c2 d2 e2 where m2: "m2 = (a2, b2, c2, d2, e2)" by (cases m2) auto
  have cq: "agree I1 I2 P (client_query q1) (client_query q2)"
    by (rule agree_client_query) (use assms in blast)
  show ?thesis
    unfolding runQuery_def m1 m2 prod.case
    apply (rule agree_bind [OF agree_store_op])
    apply (rule agree_catch)
     apply (rule agree_bind [OF cq])
     apply (rule agree_bind [OF agree_logEvent])
     apply (rule agree_return)
     apply assumption
    apply (rule agree_bind [OF agree_logEvent])
    apply (rule agree_throw)
    done
qed

lemma agree_route_catch:
  assumes "agree I1 I2 P b1 b2" and "\<And>e. agree I1 I2 (\<lambda>_. True) (l1 e) (l2 e)"
    and "faults w1 = faults w2" "I1 (db w1)" "I2 (db w2)"
  shows "fst (route_catch b1 l1 msg w1) = fst (route_catch b2 l2 msg w2)"
proof -
  obtain r1 w1' where b1: "b1 w1 = (r1, w1')" by (cases "b1 w1") auto
  obtain r2 w2' where b2: "b2 w2 = (r2, w2')" by (cases "b2 w2") auto
  note a = agreeD [OF assms(1,3-5) b1 b2]
  show ?thesis
  proof (cases r1)
    case (Inl e)
    obtain s1 v1 where l1: "l1 e w1' = (s1, v1)" by (cases "l1 e w1'") auto
    obtain s2 v2 where l2: "l2 e w2' = (s2, v2)" by (cases "l2 e w2'") auto
    have r2: "r2 = Inl e" using a(1) Inl by simp
    have "s1 = s2" by (rule agreeD(1) [OF assms(2) a(2-4) l1 l2])
    then show ?thesis using b1 b2 l1 l2 Inl r2 by (simp add: route_catch_def split: sum.splits)
  next
    case (Inr x)
    with a(1) have r2: "r2 = Inr x" by simp
    show ?thesis using b1 b2 Inr r2 by (simp add: route_catch_def)
  qed
qed

lemma agree_verify_otp_check:
  "agree (\<lambda>s. filter (\<lambda>u. mobile u = pg_text v1 \<and> otp u = Some c1) (users s) = [])
         (\<lambda>s. filter (\<lambda>u. mobile u = pg_text v2 \<and> otp u = Some c2) (users s) = [])
         (\<lambda>_. True)
         (verify_otp_check v1 c1 ip1 device1) (verify_otp_check v2 c2 ip2 device2)"
  unfolding verify_otp_check_def
  apply (rule agree_bind [where P = "\<lambda>rows. rows = []"])
   apply (rule agree_runQuery)
   apply (simp add: sql_select_by_mobile_otp_def)
  apply (simp add: verify_otp_reject_def)
  apply (intro agree_bind [OF agree_logEvent] agree_return)
  apply simp
  done

text \<open>
  C8. Take a request whose mobile has no identity and a request whose mobile has an identity
  with another code (both carry a mobile and a code), served with the same behaviour of the
  store operations. The two answers, status and body, are equal; when no store operation
  fails both are 400 \<^verbatim>\<open>Invalid OTP\<close>.
\<close>

theorem verify_otp_answer_hides_mobile_existence:
  assumes "faults w1 = faults w2"
    and "body_mobile req1 = Some (JString m1)" "body_otp req1 = Some c1" "m1 \<noteq> []" "c1 \<noteq> []"
    and "body_mobile req2 = Some (JString m2)" "body_otp req2 = Some c2" "m2 \<noteq> []" "c2 \<noteq> []"
    and "m1 \<notin> mobile ` set (users (db w1))"
    and "m2 \<in> mobile ` set (users (db w2))"
    and "\<forall>u \<in> set (users (db w2)). mobile u = m2 \<longrightarrow> otp u \<noteq> Some c2"
  shows "fst (verify_otp req1 w1) = fst (verify_otp req2 w2) \<and>
         (faults w1 = [] \<longrightarrow> fst (verify_otp req1 w1) = Sent 400 (Json_error ''Invalid OTP''))"
proof -
  have f1: "filter (\<lambda>u. mobile u = pg_text (JString m1) \<and> otp u = Some c1) (users (db w1)) = []"
    using assms(10) by (auto simp: filter_empty_conv pg_text_def)
  have f2: "filter (\<lambda>u. mobile u = pg_text (JString m2) \<and> otp u = Some c2) (users (db w2)) = []"
    using assms(12) by (auto simp: filter_empty_conv pg_text_def)
  obtain ip1 device1 where g1: "getClientInfo req1 = (ip1, device1)"
    by (cases "getClientInfo req1") auto
  obtain ip2 device2 where g2: "getClientInfo req2 = (ip2, device2)"
    by (cases "getClientInfo req2") auto
  have t1: "verify_otp_try req1 = verify_otp_check (JString m1) c1 ip1 device1"
    using assms(2-5) g1 by (simp add: verify_otp_try_def js_truthy_def)
  have t2: "verify_otp_try req2 = verify_otp_check (JString m2) c2 ip2 device2"
    using assms(6-9) g2 by (simp add: verify_otp_try_def js_truthy_def)
  have "fst (verify_otp req1 w1) = fst (verify_otp req2 w2)"
    unfolding verify_otp_def g1 g2 prod.case t1 t2
    by (rule agree_route_catch [OF agree_verify_otp_check agree_logEvent assms(1) f1 f2])
  moreover have "fst (verify_otp req1 w1) = Sent 400 (Json_error ''Invalid OTP'')" if "faults w1 = []"
    using verify_otp_ok [OF that assms(2-5)] f1 by (simp add: pg_text_def)
  ultimately show ?thesis by blast
qed

theorem verify_otp_answer_hides_mobile_existence_witness:
  "faults example_world = faults issued_world \<and>
   body_mobile example_request = Some (JString ''9999999999'') \<and> body_otp example_request = Some ''550000'' \<and>
   body_otp (example_request\<lparr>body_otp := Some ''000000''\<rparr>) = Some ''000000'' \<and>
   ''9999999999'' \<notin> mobile ` set (users (db example_world)) \<and>
   ''9999999999'' \<in> mobile ` set (users (db issued_world)) \<and>
   otp example_identity \<noteq> Some ''000000'' \<and>
   fst (verify_otp example_request example_world) = Sent 400 (Json_error ''Invalid OTP'') \<and>
   fst (verify_otp (example_request\<lparr>body_otp := Some ''000000''\<rparr>) issued_world) =
     Sent 400 (Json_error ''Invalid OTP'')"
  using verify_otp_answer_hides_mobile_existence
          [of example_world issued_world example_request "''9999999999''" "''550000''"
              "example_request\<lparr>body_otp := Some ''000000''\<rparr>" "''9999999999''" "''000000''"]
  by (simp add: eval_defs)

end
